theory Spec2Isabelle
  imports Main "HOL-Library.AList"
begin

section \<open>The block-aggregation runtime of i3pyblocks (src/i3pyblocks/core.py)\<close>

text \<open>
  The development follows \<^verbatim>\<open>core.py\<close>: the class \<^verbatim>\<open>Module\<close> (a block), its
  specialisation \<^verbatim>\<open>PollingModule\<close>, and the \<^verbatim>\<open>Runner\<close> that owns the registry, the
  writer, the click-event reader and one task per block.

  Conventions of the embedding.
  \<^item> A Python \<^verbatim>\<open>str\<close> is a \<open>string\<close>, \<^verbatim>\<open>Optional[t]\<close> is \<open>t option\<close> with \<open>None\<close> for
    Python's \<^verbatim>\<open>None\<close>.
  \<^item> A \<^verbatim>\<open>dict\<close> is an association list with distinct keys in insertion order, which
    is the order Python iterates it in; \<^verbatim>\<open>d[k] = v\<close> is \<open>AList.update k v d\<close>
    (in place for a key that is present, at the end for a new one).
  \<^item> A method that mutates \<^verbatim>\<open>self\<close> takes the object and returns the new one. A call
    that may raise returns \<open>(e, s)\<close>: \<open>e = Some x\<close> when the exception \<open>x\<close> left the
    call, and \<open>s\<close> the state at that moment.
  \<^item> An abstract method (\<^verbatim>\<open>run\<close>, \<^verbatim>\<open>click_handler\<close>, \<^verbatim>\<open>signal_handler\<close>, \<^verbatim>\<open>loop\<close>) is a
    function parameter; it receives \<^verbatim>\<open>self\<close>, so it may depend on the object's class
    and on the attributes a subclass adds (the extension of the record).
\<close>

subsection \<open>Values and exceptions\<close>

text \<open>The values \<^verbatim>\<open>Union[str, int, bool]\<close> held by a snapshot.\<close>

datatype pyval = VStr string | VInt int | VBool bool

text \<open>
  The exceptions that derive from \<^verbatim>\<open>Exception\<close>, each with the text \<^verbatim>\<open>str(e)\<close> gives.
  These are the ones \<^verbatim>\<open>except Exception\<close> catches; \<^verbatim>\<open>KeyboardInterrupt\<close> and
  \<^verbatim>\<open>SystemExit\<close>, which end the interpreter, are outside the model.
\<close>

datatype exn =
    ValueError string
  | AttributeError string
  | JSONDecodeError string
  | OSError string
  | OtherError string

fun str_exn :: "exn \<Rightarrow> string" where
  "str_exn (ValueError s) = s"
| "str_exn (AttributeError s) = s"
| "str_exn (JSONDecodeError s) = s"
| "str_exn (OSError s) = s"
| "str_exn (OtherError s) = s"

text \<open>Truthiness of an \<^verbatim>\<open>Optional[str]\<close>: \<^verbatim>\<open>x or d\<close> is \<open>d\<close> for \<^verbatim>\<open>None\<close> and for \<^verbatim>\<open>""\<close>.\<close>

definition str_or :: "string option \<Rightarrow> string \<Rightarrow> string" where
  "str_or x d = (case x of None \<Rightarrow> d | Some s \<Rightarrow> (if s = [] then d else s))"

subsection \<open>Module\<close>

text \<open>
  The thirteen style properties. They occur three times in the source: as keyword
  arguments of \<^verbatim>\<open>__init__\<close>, as the attributes \<^verbatim>\<open>_color\<close> ... \<^verbatim>\<open>_markup\<close> that keep the
  construction-time values, and as keyword arguments of \<^verbatim>\<open>update\<close>.
\<close>

record style =
  color :: "string option"
  background :: "string option"
  border :: "string option"
  border_top :: "string option"
  border_right :: "string option"
  border_bottom :: "string option"
  border_left :: "string option"
  min_width :: "int option"
  align :: "string option"
  urgent :: "bool option"
  separator :: "bool option"
  separator_block_width :: "int option"
  markup :: "string option"

text \<open>All thirteen \<^verbatim>\<open>None\<close>: the defaults of the keyword arguments of \<^verbatim>\<open>update\<close>.\<close>

definition style_none :: style where
  "style_none = \<lparr>color = None, background = None, border = None, border_top = None,
     border_right = None, border_bottom = None, border_left = None, min_width = None,
     align = None, urgent = None, separator = None, separator_block_width = None,
     markup = None\<rparr>"

text \<open>
  The defaults of the keyword arguments of \<^verbatim>\<open>__init__\<close>: \<^verbatim>\<open>urgent=False\<close>,
  \<^verbatim>\<open>separator=True\<close>, \<^verbatim>\<open>markup=Markup.NONE\<close>, the others \<^verbatim>\<open>None\<close>.
\<close>

definition style_init :: style where
  "style_init = style_none\<lparr>urgent := Some False, separator := Some True,
     markup := Some ''none''\<rparr>"

text \<open>
  An object of class \<^verbatim>\<open>Module\<close>. \<open>inst\<close> is the attribute \<^verbatim>\<open>instance\<close>; \<open>defaults\<close>
  holds \<^verbatim>\<open>_color\<close> ... \<^verbatim>\<open>_markup\<close>; \<open>short_text_0\<close> and \<open>full_text_0\<close> are
  \<^verbatim>\<open>_short_text\<close> and \<^verbatim>\<open>_full_text\<close>; \<open>state\<close> is \<^verbatim>\<open>_state\<close>, the snapshot.
\<close>

record module =
  name :: string
  inst :: "string option"
  defaults :: style
  short_text_0 :: "string option"
  full_text_0 :: string
  state :: "(string \<times> pyval option) list"

text \<open>
  \<^verbatim>\<open>getattr(self, key)\<close> for the attribute names \<^verbatim>\<open>update\<close> passes. (Another name
  raises \<^verbatim>\<open>AttributeError\<close> in Python; \<^verbatim>\<open>update\<close> passes none.)
\<close>

definition getattr :: "'a module_scheme \<Rightarrow> string \<Rightarrow> pyval option" where
  "getattr self key =
     (let d = defaults self in
      if key = ''_color'' then map_option VStr (color d)
      else if key = ''_background'' then map_option VStr (background d)
      else if key = ''_border'' then map_option VStr (border d)
      else if key = ''_border_top'' then map_option VStr (border_top d)
      else if key = ''_border_right'' then map_option VStr (border_right d)
      else if key = ''_border_bottom'' then map_option VStr (border_bottom d)
      else if key = ''_border_left'' then map_option VStr (border_left d)
      else if key = ''_min_width'' then map_option VInt (min_width d)
      else if key = ''_align'' then map_option VStr (align d)
      else if key = ''_urgent'' then map_option VBool (urgent d)
      else if key = ''_separator'' then map_option VBool (separator d)
      else if key = ''_separator_block_width'' then map_option VInt (separator_block_width d)
      else if key = ''_markup'' then map_option VStr (markup d)
      else None)"

definition get_value_or_default ::
  "'a module_scheme \<Rightarrow> pyval option \<Rightarrow> string \<Rightarrow> pyval option" where
  "get_value_or_default self v key =
     (case v of Some x \<Rightarrow> Some x | None \<Rightarrow> getattr self key)"

text \<open>
  \<^verbatim>\<open>update(full_text, short_text, color, ..., markup)\<close>: the thirteen style arguments
  are passed as one \<open>style\<close>. The keys are in the order of the dict display of the
  source (\<^verbatim>\<open>border_left\<close> before \<^verbatim>\<open>border_bottom\<close>).
\<close>

definition update ::
  "'a module_scheme \<Rightarrow> string \<Rightarrow> string option \<Rightarrow> style \<Rightarrow> 'a module_scheme" where
  "update self full_text short_text s = self\<lparr>state :=
     [(''name'', Some (VStr (name self))),
      (''instance'', map_option VStr (inst self)),
      (''full_text'', Some (VStr full_text)),
      (''short_text'', map_option VStr short_text),
      (''color'', get_value_or_default self (map_option VStr (color s)) ''_color''),
      (''background'',
         get_value_or_default self (map_option VStr (background s)) ''_background''),
      (''border'', get_value_or_default self (map_option VStr (border s)) ''_border''),
      (''border_top'',
         get_value_or_default self (map_option VStr (border_top s)) ''_border_top''),
      (''border_right'',
         get_value_or_default self (map_option VStr (border_right s)) ''_border_right''),
      (''border_left'',
         get_value_or_default self (map_option VStr (border_left s)) ''_border_left''),
      (''border_bottom'',
         get_value_or_default self (map_option VStr (border_bottom s)) ''_border_bottom''),
      (''min_width'',
         get_value_or_default self (map_option VInt (min_width s)) ''_min_width''),
      (''align'', get_value_or_default self (map_option VStr (align s)) ''_align''),
      (''urgent'', get_value_or_default self (map_option VBool (urgent s)) ''_urgent''),
      (''separator'',
         get_value_or_default self (map_option VBool (separator s)) ''_separator''),
      (''separator_block_width'',
         get_value_or_default self (map_option VInt (separator_block_width s))
           ''_separator_block_width''),
      (''markup'', get_value_or_default self (map_option VStr (markup s)) ''_markup'')]\<rparr>"

text \<open>
  \<^verbatim>\<open>Module.__init__(name, instance, **style)\<close> for an object of the class named \<open>cls\<close>:
  an empty or absent \<^verbatim>\<open>name\<close> becomes the class name; the last statement is
  \<^verbatim>\<open>self.update()\<close>. A caller that leaves a keyword argument out passes the value of
  \<open>style_init\<close> (and \<open>Some ''default''\<close> for \<^verbatim>\<open>instance\<close>).
\<close>

definition module_init :: "string \<Rightarrow> string option \<Rightarrow> string option \<Rightarrow> style \<Rightarrow> module" where
  "module_init cls nm instance s =
     update \<lparr>name = str_or nm cls, inst = instance, defaults = s,
              short_text_0 = None, full_text_0 = [], state = []\<rparr>
       [] None style_none"

text \<open>\<^verbatim>\<open>result\<close>: the dict comprehension \<^verbatim>\<open>{k: v for k, v in items if v is not None}\<close>.\<close>

fun not_none :: "(string \<times> pyval option) list \<Rightarrow> (string \<times> pyval) list" where
  "not_none [] = []"
| "not_none ((k, None) # kvs) = not_none kvs"
| "not_none ((k, Some v) # kvs) = (k, v) # not_none kvs"

definition result :: "'a module_scheme \<Rightarrow> (string \<times> pyval) list" where
  "result self = not_none (state self)"

subsection \<open>PollingModule\<close>

record polling_module = module +
  sleep :: int

text \<open>
  \<^verbatim>\<open>PollingModule.__init__(sleep, **kwargs)\<close>: \<^verbatim>\<open>super().__init__(**kwargs)\<close>, then
  \<^verbatim>\<open>self.sleep = sleep\<close>.
\<close>

definition polling_module_init ::
  "string \<Rightarrow> int \<Rightarrow> string option \<Rightarrow> string option \<Rightarrow> style \<Rightarrow> polling_module" where
  "polling_module_init cls sl nm instance s =
     module.extend (module_init cls nm instance s) (polling_module.fields sl)"

text \<open>
  The abstract \<^verbatim>\<open>run(self)\<close> of a polling block: it may change the object (usually by
  \<^verbatim>\<open>self.update(...)\<close>) and may raise.
\<close>

type_synonym 'a run = "'a polling_module_scheme \<Rightarrow> exn option \<times> 'a polling_module_scheme"

text \<open>The arguments \<^verbatim>\<open>Runner.click_event\<close> passes to a \<^verbatim>\<open>click_handler\<close>.\<close>

record click_args =
  c_x :: "int option"
  c_y :: "int option"
  c_button :: "int option"
  c_relative_x :: "int option"
  c_relative_y :: "int option"
  c_width :: "int option"
  c_height :: "int option"
  c_modifiers :: "string list option"

text \<open>\<^verbatim>\<open>def click_handler(self, *_, **__): self.run()\<close>\<close>

definition click_handler ::
  "'a run \<Rightarrow> 'a polling_module_scheme \<Rightarrow> click_args \<Rightarrow> exn option \<times> 'a polling_module_scheme" where
  "click_handler run self args = run self"

text \<open>
  \<^verbatim>\<open>def signal_handler(self, *_, **__): self.run()\<close>; the runner calls it with the
  signal number (and the interrupted stack frame, which is not modelled).
\<close>

definition signal_handler ::
  "'a run \<Rightarrow> 'a polling_module_scheme \<Rightarrow> int \<Rightarrow> exn option \<times> 'a polling_module_scheme" where
  "signal_handler run self signum = run self"

text \<open>
  The state of an \<^verbatim>\<open>asyncio\<close> task: \<open>Pending\<close> while its coroutine is suspended at an
  \<^verbatim>\<open>await\<close> and will be resumed, \<open>Done\<close> once the coroutine has returned,
  \<open>Cancelled\<close> after \<^verbatim>\<open>task.cancel()\<close>.
\<close>

datatype task_state = Pending | Done | Cancelled

text \<open>
  One resumption of \<^verbatim>\<open>PollingModule.loop\<close>, from one \<^verbatim>\<open>await asyncio.sleep\<close> to the
  next: \<^verbatim>\<open>self.run()\<close>; if it raised, the \<^verbatim>\<open>except\<close> clause writes the diagnostic
  snapshot and the coroutine returns. (\<^verbatim>\<open>log.exception\<close> only reports and is left out.)
\<close>

definition loop_step ::
  "'a run \<Rightarrow> 'a polling_module_scheme \<Rightarrow> task_state \<times> 'a polling_module_scheme" where
  "loop_step run self =
     (case run self of
        (None, self') \<Rightarrow> (Pending, self')
      | (Some e, self') \<Rightarrow>
          (Done, update self' (''Exception in '' @ name self' @ '': '' @ str_exn e) None
                   (style_none\<lparr>urgent := Some True\<rparr>)))"

text \<open>
  \<^verbatim>\<open>PollingModule.loop\<close> run on its own for at most \<open>n\<close> cycles of the
  \<^verbatim>\<open>while True\<close>: \<open>Pending\<close> when the cycles are used up and the loop is still going.
\<close>

fun loop :: "'a run \<Rightarrow> nat \<Rightarrow> 'a polling_module_scheme \<Rightarrow> task_state \<times> 'a polling_module_scheme"
  where
  "loop run 0 self = (Pending, self)"
| "loop run (Suc n) self =
     (case loop_step run self of
        (Pending, self') \<Rightarrow> loop run n self'
      | (st, self') \<Rightarrow> (st, self'))"

subsection \<open>json.dumps\<close>

text \<open>
  \<^verbatim>\<open>json.dumps\<close> of the standard library with its default arguments, on the dicts
  \<^verbatim>\<open>result()\<close> returns: item separator \<^verbatim>\<open>", "\<close>, key separator \<^verbatim>\<open>": "\<close>, strings in
  double quotes with the double quote, the backslash and every character outside \<^verbatim>\<open>' '..'~'\<close> escaped
  (\<^verbatim>\<open>ensure_ascii\<close>), integers in decimal, booleans as \<^verbatim>\<open>true\<close> and \<^verbatim>\<open>false\<close>.
  A \<open>char\<close> stands for a code point below 256.
\<close>

definition dquote :: char where "dquote = CHR 0x22"
definition backslash :: char where "backslash = CHR 0x5C"
definition newline :: char where "newline = CHR 0x0A"

definition hex_digit :: "nat \<Rightarrow> char" where
  "hex_digit n = ''0123456789abcdef'' ! (n mod 16)"

definition escape_char :: "char \<Rightarrow> string" where
  "escape_char c =
     (if c = dquote then [backslash, dquote]
      else if c = backslash then [backslash, backslash]
      else if c = CHR 0x08 then [backslash, CHR ''b'']
      else if c = CHR 0x0C then [backslash, CHR ''f'']
      else if c = newline then [backslash, CHR ''n'']
      else if c = CHR 0x0D then [backslash, CHR ''r'']
      else if c = CHR 0x09 then [backslash, CHR ''t'']
      else if (of_char c :: nat) < 0x20 \<or> 0x7E < (of_char c :: nat) then
        [backslash, CHR ''u'', CHR ''0'', CHR ''0'',
         hex_digit (of_char c div 16), hex_digit (of_char c mod 16)]
      else [c])"

definition dumps_str :: "string \<Rightarrow> string" where
  "dumps_str s = [dquote] @ concat (map escape_char s) @ [dquote]"

fun dec_nat :: "nat \<Rightarrow> string" where
  "dec_nat n =
     (if n < 10 then [''0123456789'' ! n]
      else dec_nat (n div 10) @ [''0123456789'' ! (n mod 10)])"

definition dec_int :: "int \<Rightarrow> string" where
  "dec_int i = (if i < 0 then ''-'' @ dec_nat (nat (- i)) else dec_nat (nat i))"

fun dumps_val :: "pyval \<Rightarrow> string" where
  "dumps_val (VStr s) = dumps_str s"
| "dumps_val (VInt i) = dec_int i"
| "dumps_val (VBool b) = (if b then ''true'' else ''false'')"

text \<open>\<^verbatim>\<open>sep.join(xs)\<close>\<close>

fun join :: "string \<Rightarrow> string list \<Rightarrow> string" where
  "join sep [] = []"
| "join sep [x] = x"
| "join sep (x # y # ys) = x @ sep @ join sep (y # ys)"

definition json_dumps :: "(string \<times> pyval) list \<Rightarrow> string" where
  "json_dumps d =
     ''{'' @ join '', '' (map (\<lambda>(k, v). dumps_str k @ '': '' @ dumps_val v) d) @ ''}''"

subsection \<open>Runner\<close>

text \<open>
  The tasks of a runner: the writer (\<^verbatim>\<open>write_results\<close>), the reader
  (\<^verbatim>\<open>click_events\<close>) and, for each registered block, its \<^verbatim>\<open>loop()\<close>, named here by
  the block's registry key.
\<close>

datatype task_id = WriteResults | ClickEvents | Loop string

text \<open>
  A runner over blocks of type \<open>'m\<close>. \<open>runner_sleep\<close> is the attribute \<^verbatim>\<open>sleep\<close>.
  \<open>tasks\<close> is the list \<^verbatim>\<open>self.tasks\<close>, each task with its state. Two parts of the
  process the runner writes to are kept with it: \<open>handlers\<close>, the table of
  \<^verbatim>\<open>signal.signal\<close> (signal number to the key of the block whose \<^verbatim>\<open>_handler\<close> is
  installed), and \<open>stdout\<close>, the text written to \<^verbatim>\<open>sys.stdout\<close> so far.
\<close>

record 'm runner =
  runner_sleep :: int
  modules :: "(string \<times> 'm) list"
  tasks :: "(task_id \<times> task_state) list"
  handlers :: "(int \<times> string) list"
  stdout :: string

text \<open>
  The methods of the registered blocks that the runner calls through the \<^verbatim>\<open>Module\<close>
  interface: one resumption of \<^verbatim>\<open>loop()\<close>, \<^verbatim>\<open>click_handler\<close> and \<^verbatim>\<open>signal_handler\<close>.
\<close>

record 'm methods =
  m_loop :: "'m \<Rightarrow> task_state \<times> 'm"
  m_click_handler :: "'m \<Rightarrow> click_args \<Rightarrow> exn option \<times> 'm"
  m_signal_handler :: "'m \<Rightarrow> int \<Rightarrow> exn option \<times> 'm"

text \<open>The methods of polling blocks whose \<^verbatim>\<open>run\<close> is \<open>run\<close>.\<close>

definition polling :: "'a run \<Rightarrow> ('a polling_module_scheme) methods" where
  "polling run = \<lparr>m_loop = loop_step run, m_click_handler = click_handler run,
     m_signal_handler = signal_handler run\<rparr>"

text \<open>
  \<^verbatim>\<open>Runner.__init__(sleep)\<close> in a fresh process: no module, the writer and the reader
  scheduled, nothing written yet.
\<close>

definition runner_init :: "int \<Rightarrow> 'm runner" where
  "runner_init sl = \<lparr>runner_sleep = sl, modules = [],
     tasks = [(WriteResults, Pending), (ClickEvents, Pending)], handlers = [], stdout = []\<rparr>"

text \<open>\<^verbatim>\<open>_clean_up\<close>: \<^verbatim>\<open>task.cancel()\<close> on every task; a task that is done stays done.\<close>

definition clean_up :: "'m runner \<Rightarrow> 'm runner" where
  "clean_up r = r\<lparr>tasks :=
     map (\<lambda>(t, st). (t, if st = Pending then Cancelled else st)) (tasks r)\<rparr>"

text \<open>A text between single quotes, as the messages of the exceptions have it.\<close>

definition squoted :: "string \<Rightarrow> string" where
  "squoted s = [CHR 0x27] @ s @ [CHR 0x27]"

text \<open>The formatting \<^verbatim>\<open>f"{x}"\<close> of an \<^verbatim>\<open>Optional[str]\<close>: \<^verbatim>\<open>None\<close> prints as \<^verbatim>\<open>None\<close>.\<close>

definition format_opt :: "string option \<Rightarrow> string" where
  "format_opt x = (case x of None \<Rightarrow> ''None'' | Some s \<Rightarrow> s)"

text \<open>\<^verbatim>\<open>f"{module.name}__{module.instance or 'none'}"\<close>\<close>

definition get_module_key :: "'a module_scheme \<Rightarrow> string" where
  "get_module_key m = name m @ ''__'' @ str_or (inst m) ''none''"

text \<open>
  \<^verbatim>\<open>self.modules.get(f"{name}__{instance or 'none'}")\<close>; \<^verbatim>\<open>click_event\<close> passes
  \<^verbatim>\<open>click_event.get("name")\<close>, which is \<^verbatim>\<open>None\<close> for an event without a name.
\<close>

definition get_module_from_key :: "'m runner \<Rightarrow> string option \<Rightarrow> string option \<Rightarrow> 'm option" where
  "get_module_from_key r nm instance =
     map_of (modules r) (format_opt nm @ ''__'' @ str_or instance ''none'')"

definition register_task :: "'m runner \<Rightarrow> task_id \<Rightarrow> 'm runner" where
  "register_task r t = r\<lparr>tasks := tasks r @ [(t, Pending)]\<rparr>"

text \<open>
  \<^verbatim>\<open>register_signal\<close>: \<^verbatim>\<open>signal.signal(signum, _handler)\<close> for each number, in order.
  \<open>signal_signal\<close> stands for \<^verbatim>\<open>signal.signal\<close> of the standard library on the platform:
  the exception it raises for a signal number (\<^verbatim>\<open>ValueError\<close> for a number out of range,
  \<^verbatim>\<open>OSError\<close> for a signal that cannot be caught), or \<open>None\<close> when it installs the
  handler. An exception leaves the \<^verbatim>\<open>for\<close> loop with the handlers of the numbers before
  it installed.
\<close>

fun register_signal ::
  "(int \<Rightarrow> exn option) \<Rightarrow> 'm runner \<Rightarrow> string \<Rightarrow> int list \<Rightarrow> exn option \<times> 'm runner" where
  "register_signal signal_signal r key [] = (None, r)"
| "register_signal signal_signal r key (signum # signums) =
     (case signal_signal signum of
        Some e \<Rightarrow> (Some e, r)
      | None \<Rightarrow>
          register_signal signal_signal
            (r\<lparr>handlers := AList.update signum key (handlers r)\<rparr>) key signums)"

text \<open>
  \<^verbatim>\<open>register_module\<close>. The duplicate key raises before anything is changed. With a fresh
  key the block and the task of its loop are added first; an exception of
  \<^verbatim>\<open>register_signal\<close> then leaves the call with both in place.
\<close>

definition register_module ::
  "(int \<Rightarrow> exn option) \<Rightarrow> ('a module_scheme) runner \<Rightarrow> 'a module_scheme \<Rightarrow> int list \<Rightarrow>
     exn option \<times> ('a module_scheme) runner" where
  "register_module signal_signal r m signals =
     (let module_key = get_module_key m in
      if module_key \<notin> set (map fst (modules r)) then
        (let r1 = r\<lparr>modules := AList.update module_key m (modules r)\<rparr>;
             r2 = register_task r1 (Loop module_key)
         in if signals \<noteq> [] then register_signal signal_signal r2 module_key signals
            else (None, r2))
      else
        (Some (ValueError (''Module '' @ squoted (name m) @ '' with instance ''
                 @ squoted (format_opt (inst m)) @ '' already exists'')), r))"

text \<open>\<^verbatim>\<open>write_result\<close>: one line, written to \<^verbatim>\<open>sys.stdout\<close>.\<close>

definition write_result :: "('a module_scheme) runner \<Rightarrow> ('a module_scheme) runner" where
  "write_result r = r\<lparr>stdout := stdout r @
     ''['' @ join '','' (map (\<lambda>m. json_dumps (result m)) (map snd (modules r))) @ ''],''
       @ [newline]\<rparr>"

text \<open>
  A parsed click event: the dict \<^verbatim>\<open>json.loads\<close> returns, read with \<^verbatim>\<open>.get\<close>, so that a
  missing field is \<^verbatim>\<open>None\<close>.
\<close>

record event =
  ev_name :: "string option"
  ev_instance :: "string option"
  ev_args :: click_args

text \<open>
  \<^verbatim>\<open>click_event(raw)\<close>. \<open>loads\<close> is \<^verbatim>\<open>json.loads\<close>: the parsed event, or the error it
  raises. When the key is not registered, \<^verbatim>\<open>.get\<close> returns \<^verbatim>\<open>None\<close> and the attribute
  access \<^verbatim>\<open>module.click_handler\<close> raises \<^verbatim>\<open>AttributeError\<close>.
\<close>

definition click_event ::
  "(string \<Rightarrow> exn + event) \<Rightarrow> 'm methods \<Rightarrow> 'm runner \<Rightarrow> string \<Rightarrow> exn option \<times> 'm runner" where
  "click_event loads M r raw =
     (case loads raw of
        Inl e \<Rightarrow> (Some e, r)
      | Inr ev \<Rightarrow>
          (case get_module_from_key r (ev_name ev) (ev_instance ev) of
             None \<Rightarrow>
               (Some (AttributeError (squoted ''NoneType'' @ '' object has no attribute ''
                  @ squoted ''click_handler'')), r)
           | Some m \<Rightarrow>
               (let (e, m') = m_click_handler M m (ev_args ev)
                in (e, r\<lparr>modules := AList.update
                      (format_opt (ev_name ev) @ ''__'' @ str_or (ev_instance ev) ''none'')
                      m' (modules r)\<rparr>))))"

text \<open>
  The coroutines, one resumption at a time. \<^verbatim>\<open>asyncio\<close> runs the tasks on one thread
  and switches between them only at an \<^verbatim>\<open>await\<close>, so what a task does between two
  of its \<^verbatim>\<open>await\<close>s is one step of the runner. A task that is not \<open>Pending\<close> is never
  resumed.
\<close>

text \<open>\<^verbatim>\<open>write_results\<close>: \<^verbatim>\<open>while True: self.write_result(); await asyncio.sleep(...)\<close>\<close>

definition write_results_step :: "('a module_scheme) runner \<Rightarrow> ('a module_scheme) runner" where
  "write_results_step r =
     (if map_of (tasks r) WriteResults = Some Pending then write_result r else r)"

text \<open>
  \<^verbatim>\<open>click_events\<close>, resumed by the bytes \<open>raw\<close> of one event: \<^verbatim>\<open>self.click_event(raw)\<close>,
  \<^verbatim>\<open>self.write_result()\<close>; an exception ends the \<^verbatim>\<open>while True\<close> in the \<^verbatim>\<open>except\<close>
  clause, and the coroutine returns. The reads that only move along the input (the
  opening line before the loop, the comma after each event) change nothing of the
  runner and have no step of their own.
\<close>

definition click_events_step ::
  "(string \<Rightarrow> exn + event) \<Rightarrow> ('a module_scheme) methods \<Rightarrow> ('a module_scheme) runner \<Rightarrow>
     string \<Rightarrow> ('a module_scheme) runner" where
  "click_events_step loads M r raw =
     (if map_of (tasks r) ClickEvents = Some Pending then
        (case click_event loads M r raw of
           (None, r1) \<Rightarrow> write_result r1
         | (Some e, r1) \<Rightarrow> r1\<lparr>tasks := AList.update ClickEvents Done (tasks r1)\<rparr>)
      else r)"

text \<open>The task of the block registered under \<open>key\<close>: one resumption of its \<^verbatim>\<open>loop()\<close>.\<close>

definition loop_resume :: "'m methods \<Rightarrow> 'm runner \<Rightarrow> string \<Rightarrow> 'm runner" where
  "loop_resume M r key =
     (if map_of (tasks r) (Loop key) = Some Pending then
        (case map_of (modules r) key of
           None \<Rightarrow> r
         | Some m \<Rightarrow>
             (let (st, m') = m_loop M m
              in r\<lparr>modules := AList.update key m' (modules r),
                    tasks := AList.update (Loop key) st (tasks r)\<rparr>))
      else r)"

text \<open>
  The closure \<^verbatim>\<open>_handler\<close> of \<^verbatim>\<open>register_signal\<close> for the block under \<open>key\<close>:
  \<^verbatim>\<open>module.signal_handler(...)\<close>, \<^verbatim>\<open>self.write_result()\<close>, an exception caught.
\<close>

definition handler ::
  "('a module_scheme) methods \<Rightarrow> ('a module_scheme) runner \<Rightarrow> string \<Rightarrow> int \<Rightarrow>
     ('a module_scheme) runner" where
  "handler M r key signum =
     (case map_of (modules r) key of
        None \<Rightarrow> r
      | Some m \<Rightarrow>
          (let (e, m') = m_signal_handler M m signum;
               r1 = r\<lparr>modules := AList.update key m' (modules r)\<rparr>
           in case e of None \<Rightarrow> write_result r1 | Some x \<Rightarrow> r1))"

text \<open>
  What happens to a running runner: the writer's timer fires, the timer of a block's
  loop fires, the bytes of a click event arrive, a signal with an installed handler
  is delivered.
\<close>

datatype occurrence = Tick | Wake string | Input string | Signal int

fun step ::
  "(string \<Rightarrow> exn + event) \<Rightarrow> ('a module_scheme) methods \<Rightarrow> ('a module_scheme) runner \<Rightarrow>
     occurrence \<Rightarrow> ('a module_scheme) runner" where
  "step loads M r Tick = write_results_step r"
| "step loads M r (Wake key) = loop_resume M r key"
| "step loads M r (Input raw) = click_events_step loads M r raw"
| "step loads M r (Signal signum) =
     (case map_of (handlers r) signum of None \<Rightarrow> r | Some key \<Rightarrow> handler M r key signum)"

text \<open>The two lines \<^verbatim>\<open>start\<close> writes: \<^verbatim>\<open>{"version": 1, "click_events": true}\<close> and \<^verbatim>\<open>[\<close>.\<close>

definition header :: string where
  "header = ''{'' @ [dquote] @ ''version'' @ [dquote] @ '': 1, '' @ [dquote] @ ''click_events''
     @ [dquote] @ '': true}'' @ [newline] @ ''['' @ [newline]"

text \<open>
  \<^verbatim>\<open>start(timeout)\<close>: the header, then \<^verbatim>\<open>asyncio.wait\<close> lets the tasks run until the
  timeout; \<open>occs\<close> is what happens until then, in order. Then \<^verbatim>\<open>_clean_up\<close>.
\<close>

definition start ::
  "(string \<Rightarrow> exn + event) \<Rightarrow> ('a module_scheme) methods \<Rightarrow> ('a module_scheme) runner \<Rightarrow>
     occurrence list \<Rightarrow> ('a module_scheme) runner" where
  "start loads M r occs =
     clean_up (foldl (step loads M) (r\<lparr>stdout := stdout r @ header\<rparr>) occs)"

subsection \<open>Example blocks\<close>

text \<open>A block as \<^verbatim>\<open>DiskModule(name="Disk", instance="/home")\<close> would construct it.\<close>

definition disk_home :: module where
  "disk_home = module_init ''DiskModule'' (Some ''Disk'') (Some ''/home'') style_init"

text \<open>A block of a class \<^verbatim>\<open>Block\<close> constructed as \<^verbatim>\<open>Block(name=nm, instance=...)\<close>.\<close>

definition block :: "string \<Rightarrow> string option \<Rightarrow> module" where
  "block nm instance = module_init ''Block'' (Some nm) instance style_init"

text \<open>
  The click event \<^verbatim>\<open>{"name": nm, "instance": i, "button": 1}\<close>, and a stand-in for
  \<^verbatim>\<open>json.loads\<close> that parses two texts.
\<close>

definition click :: "string \<Rightarrow> string \<Rightarrow> event" where
  "click nm i = \<lparr>ev_name = Some nm, ev_instance = Some i,
     ev_args = \<lparr>c_x = None, c_y = None, c_button = Some 1, c_relative_x = None,
       c_relative_y = None, c_width = None, c_height = None, c_modifiers = None\<rparr>\<rparr>"

definition loads_example :: "string \<Rightarrow> exn + event" where
  "loads_example raw =
     (if raw = ''{Disk /home}'' then Inr (click ''Disk'' ''/home'')
      else if raw = ''{Disk /var}'' then Inr (click ''Disk'' ''/var'')
      else Inl (JSONDecodeError ''Expecting value''))"

text \<open>
  Methods of a block that never fails: its loop does nothing, a click writes the
  button into the snapshot, a signal the signal number.
\<close>

definition static_methods :: "module methods" where
  "static_methods = \<lparr>m_loop = (\<lambda>m. (Pending, m)),
     m_click_handler = (\<lambda>m a. (None, update m ''click'' None (style_none\<lparr>min_width := c_button a\<rparr>))),
     m_signal_handler = (\<lambda>m n. (None, update m ''signal'' None (style_none\<lparr>min_width := Some n\<rparr>)))\<rparr>"

text \<open>
  A stand-in for \<^verbatim>\<open>signal.signal\<close> as it behaves on Linux: numbers outside 1..64 are
  out of range, \<^verbatim>\<open>SIGKILL\<close> (9) and \<^verbatim>\<open>SIGSTOP\<close> (19) cannot be caught, 32 and 33 are
  reserved by the C library; every other number, such as \<^verbatim>\<open>SIGUSR1\<close> (10), is accepted.
\<close>

definition signal_example :: "int \<Rightarrow> exn option" where
  "signal_example signum =
     (if signum < 1 \<or> 64 < signum then Some (ValueError ''signal number out of range'')
      else if signum = 9 \<or> signum = 19 \<or> signum = 32 \<or> signum = 33 then
        Some (OSError ''[Errno 22] Invalid argument'')
      else None)"

text \<open>The runner after \<^verbatim>\<open>Runner()\<close> and \<^verbatim>\<open>register_module(disk_home)\<close>.\<close>

definition disk_runner :: "module runner" where
  "disk_runner = snd (register_module signal_example (runner_init 1) disk_home [])"

text \<open>
  A polling block whose subclass keeps a counter: its \<^verbatim>\<open>run\<close> adds one to the counter,
  so that the counter is the number of calls of \<^verbatim>\<open>run\<close>; it shows the counter as
  \<^verbatim>\<open>min_width\<close>, until the counter has reached \<open>limit\<close>: from then on it raises.
\<close>

definition counting_run :: "nat \<Rightarrow> nat run" where
  "counting_run limit self =
     (if polling_module.more self < limit then
        (None, (update self ''runs'' None
                  (style_none\<lparr>min_width := Some (int (polling_module.more self) + 1)\<rparr>))
               \<lparr>polling_module.more := Suc (polling_module.more self)\<rparr>)
      else (Some (OtherError ''sensor gone''),
            self\<lparr>polling_module.more := Suc (polling_module.more self)\<rparr>))"

definition counter_block :: "nat polling_module_scheme" where
  "counter_block =
     polling_module.extend (polling_module_init ''Clock'' 5 None (Some ''default'') style_init) 0"

definition counter_runner :: "(nat polling_module_scheme) runner" where
  "counter_runner = snd (register_module signal_example (runner_init 1) counter_block [10])"

text \<open>The timers: the occurrences that resume the writer or the loop of a block.\<close>

fun is_timer :: "occurrence \<Rightarrow> bool" where
  "is_timer Tick = True"
| "is_timer (Wake key) = True"
| "is_timer (Input raw) = False"
| "is_timer (Signal signum) = False"

text \<open>
  A sequence of \<^verbatim>\<open>register_module\<close> calls, as \<^verbatim>\<open>main\<close> of \<^verbatim>\<open>run.py\<close> makes them, each with
  the block and its signal numbers; an exception ends the sequence.
\<close>

fun register_modules ::
  "(int \<Rightarrow> exn option) \<Rightarrow> ('a module_scheme) runner \<Rightarrow>
     ('a module_scheme \<times> int list) list \<Rightarrow> exn option \<times> ('a module_scheme) runner" where
  "register_modules signal_signal r [] = (None, r)"
| "register_modules signal_signal r ((m, signals) # regs) =
     (case register_module signal_signal r m signals of
        (None, r') \<Rightarrow> register_modules signal_signal r' regs
      | (Some e, r') \<Rightarrow> (Some e, r'))"

section \<open>Properties\<close>

subsection \<open>Snapshots\<close>

lemma not_none_filter:
  "not_none kvs = map (\<lambda>(k, v). (k, the v)) (filter (\<lambda>(k, v). v \<noteq> None) kvs)"
  by (induction kvs rule: not_none.induct) simp_all

lemma not_none_mem: "(k, v) \<in> set (not_none kvs) \<longleftrightarrow> (k, Some v) \<in> set kvs"
  by (induction kvs rule: not_none.induct) auto

lemma not_none_map_of:
  "distinct (map fst kvs) \<Longrightarrow>
   map_of (not_none kvs) k = (case map_of kvs k of Some (Some v) \<Rightarrow> Some v | _ \<Rightarrow> None)"
proof (induction kvs rule: not_none.induct)
  case 1
  then show ?case by simp
next
  case (2 k' kvs)
  then show ?case
    by (auto simp: not_none_mem map_of_eq_None_iff image_iff split: option.splits)
next
  case (3 k' v kvs)
  then show ?case by (auto split: option.splits)
qed

lemma update_keys:
  "map fst (state (update m ft st s)) =
     [''name'', ''instance'', ''full_text'', ''short_text'', ''color'', ''background'',
      ''border'', ''border_top'', ''border_right'', ''border_left'', ''border_bottom'',
      ''min_width'', ''align'', ''urgent'', ''separator'', ''separator_block_width'',
      ''markup'']"
  by (simp add: update_def)

lemma update_distinct: "distinct (map fst (state (update m ft st s)))"
  unfolding update_keys by simp

lemma update_color:
  "map_of (state (update m ft st s)) ''color'' =
     Some (map_option VStr (case color s of Some c \<Rightarrow> Some c | None \<Rightarrow> color (defaults m)))"
  by (simp add: update_def get_value_or_default_def getattr_def split: option.splits)

lemma state_disk_home:
  "state disk_home =
      [(''name'', Some (VStr ''Disk'')), (''instance'', Some (VStr ''/home'')),
       (''full_text'', Some (VStr [])), (''short_text'', None), (''color'', None),
       (''background'', None), (''border'', None), (''border_top'', None),
       (''border_right'', None), (''border_left'', None), (''border_bottom'', None),
       (''min_width'', None), (''align'', None), (''urgent'', Some (VBool False)),
       (''separator'', Some (VBool True)), (''separator_block_width'', None),
       (''markup'', Some (VStr ''none''))]"
  by (simp add: disk_home_def module_init_def update_def style_init_def style_none_def
      get_value_or_default_def getattr_def str_or_def)

text \<open>
  C5. \<^verbatim>\<open>result()\<close> returns exactly the pairs of the snapshot whose value is not
  \<^verbatim>\<open>None\<close>, in the snapshot's order: a pair is in the result if and only if the
  snapshot holds it with a value; read as a dict, the result of any snapshot \<^verbatim>\<open>update\<close>
  has written has no entry for a key whose value is \<^verbatim>\<open>None\<close>; and a block constructed
  without a colour and updated without one has no \<^verbatim>\<open>color\<close> key in its result.
\<close>

theorem result_omits_none:
  "result m = map (\<lambda>(k, v). (k, the v)) (filter (\<lambda>(k, v). v \<noteq> None) (state m))
   \<and> (\<forall>k v. (k, v) \<in> set (result m) \<longleftrightarrow> (k, Some v) \<in> set (state m))
   \<and> (\<forall>k. map_of (result (update m ft st s)) k =
          (case map_of (state (update m ft st s)) k of Some (Some v) \<Rightarrow> Some v | _ \<Rightarrow> None))
   \<and> (color s = None \<and> color (defaults m) = None \<longrightarrow>
          ''color'' \<notin> fst ` set (result (update m ft st s)))"
proof (intro conjI allI impI)
  show "result m = map (\<lambda>(k, v). (k, the v)) (filter (\<lambda>(k, v). v \<noteq> None) (state m))"
    by (simp add: result_def not_none_filter)
  show "(k, v) \<in> set (result m) \<longleftrightarrow> (k, Some v) \<in> set (state m)" for k v
    by (simp add: result_def not_none_mem)
  show dict: "map_of (result (update m ft st s)) k =
          (case map_of (state (update m ft st s)) k of Some (Some v) \<Rightarrow> Some v | _ \<Rightarrow> None)"
    for k
    by (simp only: result_def not_none_map_of [OF update_distinct])
  assume "color s = None \<and> color (defaults m) = None"
  then have "map_of (state (update m ft st s)) ''color'' = Some None"
    by (simp add: update_color)
  then have "map_of (result (update m ft st s)) ''color'' = None"
    by (simp add: dict)
  then show "''color'' \<notin> fst ` set (result (update m ft st s))"
    by (simp add: map_of_eq_None_iff)
qed

theorem result_omits_none_witness:
  "result disk_home =
     [(''name'', VStr ''Disk''), (''instance'', VStr ''/home''), (''full_text'', VStr []),
      (''urgent'', VBool False), (''separator'', VBool True), (''markup'', VStr ''none'')]
   \<and> ''color'' \<notin> fst ` set (result (update disk_home ''OK'' None style_none))"
proof -
  have c: "color style_none = None \<and> color (defaults disk_home) = None"
    by (simp add: style_none_def disk_home_def module_init_def update_def style_init_def)
  from result_omits_none [of disk_home "''OK''" None style_none] c state_disk_home
  show ?thesis by simp
qed

subsection \<open>\<^verbatim>\<open>update\<close>\<close>

text \<open>
  C6. \<^verbatim>\<open>update\<close> replaces the snapshot as a whole: the new snapshot has the
  seventeen keys of the dict display and does not depend on the old one. Each style
  field takes the value passed when it is not \<^verbatim>\<open>None\<close>, and else the value of the
  attribute that keeps the construction-time argument; \<^verbatim>\<open>full_text\<close> and
  \<^verbatim>\<open>short_text\<close> take the values passed; \<^verbatim>\<open>name\<close> and \<^verbatim>\<open>instance\<close> are the
  block's. \<^verbatim>\<open>update\<close> leaves the construction-time values as they are, and
  \<^verbatim>\<open>__init__\<close> stores the ones it is given.
\<close>

theorem update_replaces_snapshot:
  "map fst (state (update m ft st s)) =
     [''name'', ''instance'', ''full_text'', ''short_text'', ''color'', ''background'',
      ''border'', ''border_top'', ''border_right'', ''border_left'', ''border_bottom'',
      ''min_width'', ''align'', ''urgent'', ''separator'', ''separator_block_width'',
      ''markup'']
   \<and> update (m\<lparr>state := old\<rparr>) ft st s = update m ft st s
   \<and> map_of (state (update m ft st s)) ''name'' = Some (Some (VStr (name m)))
   \<and> map_of (state (update m ft st s)) ''instance'' = Some (map_option VStr (inst m))
   \<and> map_of (state (update m ft st s)) ''full_text'' = Some (Some (VStr ft))
   \<and> map_of (state (update m ft st s)) ''short_text'' = Some (map_option VStr st)
   \<and> map_of (state (update m ft st s)) ''color'' =
       Some (map_option VStr (case color s of Some x \<Rightarrow> Some x | None \<Rightarrow> color (defaults m)))
   \<and> map_of (state (update m ft st s)) ''background'' =
       Some (map_option VStr (case background s of Some x \<Rightarrow> Some x | None \<Rightarrow> background (defaults m)))
   \<and> map_of (state (update m ft st s)) ''border'' =
       Some (map_option VStr (case border s of Some x \<Rightarrow> Some x | None \<Rightarrow> border (defaults m)))
   \<and> map_of (state (update m ft st s)) ''border_top'' =
       Some (map_option VStr (case border_top s of Some x \<Rightarrow> Some x | None \<Rightarrow> border_top (defaults m)))
   \<and> map_of (state (update m ft st s)) ''border_right'' =
       Some (map_option VStr (case border_right s of Some x \<Rightarrow> Some x | None \<Rightarrow> border_right (defaults m)))
   \<and> map_of (state (update m ft st s)) ''border_left'' =
       Some (map_option VStr (case border_left s of Some x \<Rightarrow> Some x | None \<Rightarrow> border_left (defaults m)))
   \<and> map_of (state (update m ft st s)) ''border_bottom'' =
       Some (map_option VStr (case border_bottom s of Some x \<Rightarrow> Some x | None \<Rightarrow> border_bottom (defaults m)))
   \<and> map_of (state (update m ft st s)) ''min_width'' =
       Some (map_option VInt (case min_width s of Some x \<Rightarrow> Some x | None \<Rightarrow> min_width (defaults m)))
   \<and> map_of (state (update m ft st s)) ''align'' =
       Some (map_option VStr (case align s of Some x \<Rightarrow> Some x | None \<Rightarrow> align (defaults m)))
   \<and> map_of (state (update m ft st s)) ''urgent'' =
       Some (map_option VBool (case urgent s of Some x \<Rightarrow> Some x | None \<Rightarrow> urgent (defaults m)))
   \<and> map_of (state (update m ft st s)) ''separator'' =
       Some (map_option VBool (case separator s of Some x \<Rightarrow> Some x | None \<Rightarrow> separator (defaults m)))
   \<and> map_of (state (update m ft st s)) ''separator_block_width'' =
       Some (map_option VInt (case separator_block_width s of Some x \<Rightarrow> Some x | None \<Rightarrow> separator_block_width (defaults m)))
   \<and> map_of (state (update m ft st s)) ''markup'' =
       Some (map_option VStr (case markup s of Some x \<Rightarrow> Some x | None \<Rightarrow> markup (defaults m)))
   \<and> defaults (update m ft st s) = defaults m
   \<and> defaults (module_init cls nm i d) = d"
proof -
  have sel: "map_of (state (update m ft st s)) k =
      map_of [(''name'', Some (VStr (name m))),
      (''instance'', map_option VStr (inst m)),
      (''full_text'', Some (VStr ft)),
      (''short_text'', map_option VStr st),
      (''color'', get_value_or_default m (map_option VStr (color s)) ''_color''),
      (''background'',
         get_value_or_default m (map_option VStr (background s)) ''_background''),
      (''border'', get_value_or_default m (map_option VStr (border s)) ''_border''),
      (''border_top'',
         get_value_or_default m (map_option VStr (border_top s)) ''_border_top''),
      (''border_right'',
         get_value_or_default m (map_option VStr (border_right s)) ''_border_right''),
      (''border_left'',
         get_value_or_default m (map_option VStr (border_left s)) ''_border_left''),
      (''border_bottom'',
         get_value_or_default m (map_option VStr (border_bottom s)) ''_border_bottom''),
      (''min_width'',
         get_value_or_default m (map_option VInt (min_width s)) ''_min_width''),
      (''align'', get_value_or_default m (map_option VStr (align s)) ''_align''),
      (''urgent'', get_value_or_default m (map_option VBool (urgent s)) ''_urgent''),
      (''separator'',
         get_value_or_default m (map_option VBool (separator s)) ''_separator''),
      (''separator_block_width'',
         get_value_or_default m (map_option VInt (separator_block_width s))
           ''_separator_block_width''),
      (''markup'', get_value_or_default m (map_option VStr (markup s)) ''_markup'')] k" for k
    by (simp add: update_def)
  have gd: "get_value_or_default m (map_option c v) key =
      (case v of Some x \<Rightarrow> Some (c x) | None \<Rightarrow> getattr m key)" for c :: "'b \<Rightarrow> pyval" and v key
    by (simp add: get_value_or_default_def split: option.splits)
  have mo: "map_option c (case v of Some x \<Rightarrow> Some x | None \<Rightarrow> d) =
      (case v of Some x \<Rightarrow> Some (c x) | None \<Rightarrow> map_option c d)" for c :: "'b \<Rightarrow> pyval" and v d
    by (simp split: option.splits)
  have ga: "get_value_or_default (m\<lparr>state := old\<rparr>) v key = get_value_or_default m v key"
    for v key
    by (simp add: get_value_or_default_def getattr_def split: option.splits)
  show ?thesis
    apply (intro conjI)
    subgoal by (rule update_keys)
    subgoal by (simp add: update_def ga)
    apply (simp_all only: sel gd mo)
    apply (simp_all add: getattr_def update_def module_init_def split: option.splits)
    done
qed

subsection \<open>Registration\<close>

lemma update_name [simp]: "name (update m ft st s) = name m"
  by (simp add: update_def)

lemma update_inst [simp]: "inst (update m ft st s) = inst m"
  by (simp add: update_def)

lemma get_module_key_update [simp]: "get_module_key (update m ft st s) = get_module_key m"
  by (simp add: get_module_key_def)

lemma register_signal_modules [simp]:
  "modules (snd (register_signal sg r key sigs)) = modules r"
  by (induction sigs arbitrary: r) (simp_all split: option.splits)

lemma register_signal_tasks [simp]:
  "tasks (snd (register_signal sg r key sigs)) = tasks r"
  by (induction sigs arbitrary: r) (simp_all split: option.splits)

lemma register_signal_stdout [simp]:
  "stdout (snd (register_signal sg r key sigs)) = stdout r"
  by (induction sigs arbitrary: r) (simp_all split: option.splits)

lemma register_signal_accepted:
  "\<forall>s \<in> set sigs. sg s = None \<Longrightarrow> fst (register_signal sg r key sigs) = None"
  by (induction sigs arbitrary: r) simp_all

lemma register_signal_refused:
  "\<forall>s \<in> set pre. sg s = None \<Longrightarrow> sg s = Some e \<Longrightarrow>
   fst (register_signal sg r key (pre @ s # post)) = Some e"
  by (induction pre arbitrary: r) simp_all

lemma update_fresh: "k \<notin> fst ` set al \<Longrightarrow> AList.update k v al = al @ [(k, v)]"
  by (induction al) auto

lemma register_module_fresh:
  assumes "get_module_key m \<notin> fst ` set (modules r)"
  shows "modules (snd (register_module sg r m sigs)) = modules r @ [(get_module_key m, m)]"
    and "tasks (snd (register_module sg r m sigs)) =
      tasks r @ [(Loop (get_module_key m), Pending)]"
    and "stdout (snd (register_module sg r m sigs)) = stdout r"
  using assms by (simp_all add: register_module_def Let_def register_task_def update_fresh)

lemma register_module_accepted:
  assumes "get_module_key m \<notin> fst ` set (modules r)"
    and "\<forall>s \<in> set sigs. sg s = None"
  shows "fst (register_module sg r m sigs) = None"
  using assms by (simp add: register_module_def Let_def register_signal_accepted)

text \<open>
  A signal number that \<^verbatim>\<open>signal.signal\<close> refuses makes \<^verbatim>\<open>register_module\<close> raise its
  exception, after the block and its task were added.
\<close>

lemma register_module_refused:
  assumes "get_module_key m \<notin> fst ` set (modules r)"
    and "\<forall>s \<in> set pre. sg s = None" and "sg s = Some e"
  shows "fst (register_module sg r m (pre @ s # post)) = Some e"
    and "modules (snd (register_module sg r m (pre @ s # post))) =
      modules r @ [(get_module_key m, m)]"
    and "tasks (snd (register_module sg r m (pre @ s # post))) =
      tasks r @ [(Loop (get_module_key m), Pending)]"
proof -
  show "fst (register_module sg r m (pre @ s # post)) = Some e"
    using assms by (simp add: register_module_def Let_def register_signal_refused)
  show "modules (snd (register_module sg r m (pre @ s # post))) =
      modules r @ [(get_module_key m, m)]"
    and "tasks (snd (register_module sg r m (pre @ s # post))) =
      tasks r @ [(Loop (get_module_key m), Pending)]"
    using assms(1) by (rule register_module_fresh)+
qed

lemma register_module_dup:
  assumes "get_module_key m \<in> fst ` set (modules r)"
  shows "register_module sg r m sigs =
    (Some (ValueError (''Module '' @ squoted (name m) @ '' with instance ''
                 @ squoted (format_opt (inst m)) @ '' already exists'')), r)"
  using assms by (simp add: register_module_def Let_def)

text \<open>
  C2. In every runner state, \<^verbatim>\<open>register_module\<close> of a block whose key is already in
  the registry raises \<^verbatim>\<open>ValueError\<close> and leaves the runner as it was: the registry,
  the tasks, the signal handlers. With a key that is not in the registry it appends the
  block under its key and appends the task of the block's loop, and it raises nothing
  when \<^verbatim>\<open>signal.signal\<close> accepts every signal number passed along (in particular when
  none is passed); a later registration under the same key then fails and the registry
  still maps the key to the first block.
\<close>

theorem register_module_unique:
  "(get_module_key m \<in> fst ` set (modules r) \<longrightarrow>
      (\<exists>msg. register_module sg r m sigs = (Some (ValueError msg), r)))
   \<and> (get_module_key m \<notin> fst ` set (modules r) \<longrightarrow>
        modules (snd (register_module sg r m sigs)) = modules r @ [(get_module_key m, m)]
      \<and> tasks (snd (register_module sg r m sigs)) =
          tasks r @ [(Loop (get_module_key m), Pending)]
      \<and> ((\<forall>s \<in> set sigs. sg s = None) \<longrightarrow> fst (register_module sg r m sigs) = None)
      \<and> (get_module_key m' = get_module_key m \<longrightarrow>
           (\<exists>msg. register_module sg (snd (register_module sg r m sigs)) m' sigs' =
              (Some (ValueError msg), snd (register_module sg r m sigs))))
      \<and> map_of (modules (snd (register_module sg r m sigs))) (get_module_key m) = Some m)"
proof -
  have dup: "\<exists>msg. register_module sg r m sigs = (Some (ValueError msg), r)"
    if "get_module_key m \<in> fst ` set (modules r)"
    using that by (simp add: register_module_dup)
  have fresh: "modules (snd (register_module sg r m sigs)) = modules r @ [(get_module_key m, m)]
      \<and> tasks (snd (register_module sg r m sigs)) =
          tasks r @ [(Loop (get_module_key m), Pending)]
      \<and> ((\<forall>s \<in> set sigs. sg s = None) \<longrightarrow> fst (register_module sg r m sigs) = None)
      \<and> (get_module_key m' = get_module_key m \<longrightarrow>
           (\<exists>msg. register_module sg (snd (register_module sg r m sigs)) m' sigs' =
              (Some (ValueError msg), snd (register_module sg r m sigs))))
      \<and> map_of (modules (snd (register_module sg r m sigs))) (get_module_key m) = Some m"
    if f: "get_module_key m \<notin> fst ` set (modules r)"
  proof -
    have ms: "modules (snd (register_module sg r m sigs)) = modules r @ [(get_module_key m, m)]"
      and ts: "tasks (snd (register_module sg r m sigs)) =
          tasks r @ [(Loop (get_module_key m), Pending)]"
      using f by (rule register_module_fresh)+
    have ok: "fst (register_module sg r m sigs) = None" if "\<forall>s \<in> set sigs. sg s = None"
      using f that by (rule register_module_accepted)
    have again: "\<exists>msg. register_module sg (snd (register_module sg r m sigs)) m' sigs' =
              (Some (ValueError msg), snd (register_module sg r m sigs))"
      if "get_module_key m' = get_module_key m"
    proof -
      from that
      have "get_module_key m' \<in> fst ` set (modules (snd (register_module sg r m sigs)))"
        by (simp add: ms)
      then show ?thesis by (simp add: register_module_dup)
    qed
    have kept: "map_of (modules (snd (register_module sg r m sigs))) (get_module_key m) = Some m"
      using f by (simp add: ms map_add_def map_of_eq_None_iff [THEN iffD2])
    from ms ts ok again kept show ?thesis by blast
  qed
  from dup fresh show ?thesis by blast
qed

lemma key_disk_home: "get_module_key disk_home = ''Disk__/home''"
  by (simp add: disk_home_def module_init_def get_module_key_def str_or_def)

theorem register_module_unique_witness:
  "fst (register_module signal_example (runner_init 1) disk_home [10]) = None
   \<and> modules (snd (register_module signal_example (runner_init 1) disk_home [10])) =
        [(''Disk__/home'', disk_home)]
   \<and> tasks (snd (register_module signal_example (runner_init 1) disk_home [10])) =
        [(WriteResults, Pending), (ClickEvents, Pending), (Loop ''Disk__/home'', Pending)]
   \<and> (\<exists>msg. register_module signal_example
         (snd (register_module signal_example (runner_init 1) disk_home [10]))
         (update disk_home ''other'' None style_none) [12] =
          (Some (ValueError msg),
           snd (register_module signal_example (runner_init 1) disk_home [10])))"
proof -
  have f: "get_module_key disk_home \<notin> fst ` set (modules (runner_init 1 :: module runner))"
    by (simp add: runner_init_def)
  have k: "get_module_key (update disk_home ''other'' None style_none) = get_module_key disk_home"
    by simp
  have a: "\<forall>s \<in> set [10]. signal_example s = None"
    by (simp add: signal_example_def)
  from register_module_unique [of disk_home "runner_init 1" signal_example "[10]"
      "update disk_home ''other'' None style_none" "[12]"] f k a
  show ?thesis
    by (simp add: key_disk_home runner_init_def)
qed

text \<open>
  With \<^verbatim>\<open>SIGKILL\<close> among the signals the registration of a fresh block raises
  \<^verbatim>\<open>OSError\<close>, and the block and its task stay registered.
\<close>

lemma register_module_sigkill:
  "register_module signal_example (runner_init 1) disk_home [9] =
     (Some (OSError ''[Errno 22] Invalid argument''),
      \<lparr>runner_sleep = 1, modules = [(''Disk__/home'', disk_home)],
         tasks = [(WriteResults, Pending), (ClickEvents, Pending),
                  (Loop ''Disk__/home'', Pending)],
         handlers = [], stdout = []\<rparr>)"
  by (simp add: register_module_def signal_example_def runner_init_def key_disk_home
      register_task_def Let_def)

subsection \<open>Registry keys\<close>

lemma name_block [simp]: "name (block nm i) = (if nm = [] then ''Block'' else nm)"
  by (simp add: block_def module_init_def str_or_def)

lemma inst_block [simp]: "inst (block nm i) = i"
  by (simp add: block_def module_init_def)

text \<open>
  C10, as stated, fails for the empty instance: \<^verbatim>\<open>instance or 'none'\<close> replaces
  \<^verbatim>\<open>""\<close> as well as \<^verbatim>\<open>None\<close>, so the key of name \<^verbatim>\<open>a\<close> and instance \<^verbatim>\<open>""\<close> is
  \<^verbatim>\<open>a__none\<close> and not \<^verbatim>\<open>a__\<close>.
\<close>

theorem module_key_empty_instance:
  "get_module_key (block ''a'' (Some '''')) = ''a__none''
   \<and> name (block ''a'' (Some '''')) @ ''__'' @
       (case inst (block ''a'' (Some '''')) of None \<Rightarrow> ''none'' | Some i \<Rightarrow> i) = ''a__''
   \<and> get_module_key (block ''a'' (Some '''')) \<noteq>
       name (block ''a'' (Some '''')) @ ''__'' @
       (case inst (block ''a'' (Some '''')) of None \<Rightarrow> ''none'' | Some i \<Rightarrow> i)"
  by (simp add: get_module_key_def str_or_def)

text \<open>
  C10, amended. The registry key of a block is its name, \<^verbatim>\<open>__\<close>, and its instance, or
  \<^verbatim>\<open>none\<close> when the instance is \<^verbatim>\<open>None\<close> or empty. The key is not injective on
  (name, instance): \<^verbatim>\<open>(a__b, c)\<close> and \<^verbatim>\<open>(a, b__c)\<close> have the same key, and so have the
  instances \<^verbatim>\<open>None\<close>, \<^verbatim>\<open>""\<close> and \<^verbatim>\<open>none\<close> of one name. The two blocks \<^verbatim>\<open>(a__b, c)\<close> and
  \<^verbatim>\<open>(a, b__c)\<close> differ in name and instance, registering the second after the first
  raises \<^verbatim>\<open>ValueError\<close>, and in every runner the click events addressed to either
  resolve to the same registry entry.
\<close>

theorem module_key_collisions:
  "get_module_key m = name m @ ''__'' @
       (case inst m of None \<Rightarrow> ''none'' | Some i \<Rightarrow> if i = [] then ''none'' else i)
   \<and> name (block ''a__b'' (Some ''c'')) \<noteq> name (block ''a'' (Some ''b__c''))
   \<and> inst (block ''a__b'' (Some ''c'')) \<noteq> inst (block ''a'' (Some ''b__c''))
   \<and> get_module_key (block ''a__b'' (Some ''c'')) = get_module_key (block ''a'' (Some ''b__c''))
   \<and> get_module_key (block ''a'' None) = get_module_key (block ''a'' (Some ''none''))
   \<and> get_module_key (block ''a'' (Some '''')) = get_module_key (block ''a'' (Some ''none''))
   \<and> fst (register_module sg (runner_init sl) (block ''a__b'' (Some ''c'')) []) = None
   \<and> (\<exists>msg. register_module sg
          (snd (register_module sg (runner_init sl) (block ''a__b'' (Some ''c'')) []))
          (block ''a'' (Some ''b__c'')) [] =
        (Some (ValueError msg),
         snd (register_module sg (runner_init sl) (block ''a__b'' (Some ''c'')) [])))
   \<and> get_module_from_key r (Some ''a__b'') (Some ''c'') =
       get_module_from_key r (Some ''a'') (Some ''b__c'')
   \<and> get_module_from_key r (Some ''a'') None = get_module_from_key r (Some ''a'') (Some ''none'')
   \<and> get_module_from_key r (Some ''a__b'') (Some ''c'') =
       map_of (modules r) (get_module_key (block ''a'' (Some ''b__c'')))"
proof -
  let ?r0 = "runner_init sl :: module runner"
  let ?b1 = "block ''a__b'' (Some ''c'')"
  let ?b2 = "block ''a'' (Some ''b__c'')"
  have k: "get_module_key ?b1 = get_module_key ?b2"
    by (simp add: get_module_key_def str_or_def)
  have fresh: "get_module_key ?b1 \<notin> fst ` set (modules ?r0)"
    by (simp add: runner_init_def)
  have first: "fst (register_module sg ?r0 ?b1 []) = None"
    using fresh by (rule register_module_accepted) simp
  have "get_module_key ?b2 \<in> fst ` set (modules (snd (register_module sg ?r0 ?b1 [])))"
    by (simp add: register_module_fresh(1) [OF fresh] k)
  then have second: "\<exists>msg. register_module sg (snd (register_module sg ?r0 ?b1 [])) ?b2 [] =
        (Some (ValueError msg), snd (register_module sg ?r0 ?b1 []))"
    by (simp add: register_module_dup)
  have form: "get_module_key m = name m @ ''__'' @
       (case inst m of None \<Rightarrow> ''none'' | Some i \<Rightarrow> if i = [] then ''none'' else i)"
    by (simp add: get_module_key_def str_or_def)
  have rest: "name ?b1 \<noteq> name ?b2" "inst ?b1 \<noteq> inst ?b2"
    "get_module_key (block ''a'' None) = get_module_key (block ''a'' (Some ''none''))"
    "get_module_key (block ''a'' (Some '''')) = get_module_key (block ''a'' (Some ''none''))"
    "get_module_from_key r (Some ''a__b'') (Some ''c'') =
       get_module_from_key r (Some ''a'') (Some ''b__c'')"
    "get_module_from_key r (Some ''a'') None = get_module_from_key r (Some ''a'') (Some ''none'')"
    "get_module_from_key r (Some ''a__b'') (Some ''c'') =
       map_of (modules r) (get_module_key (block ''a'' (Some ''b__c'')))"
    by (simp_all add: get_module_key_def get_module_from_key_def str_or_def format_opt_def)
  from form rest k first second show ?thesis by blast
qed

subsection \<open>Click dispatch\<close>

lemma disk_runner_eq:
  "disk_runner = \<lparr>runner_sleep = 1, modules = [(''Disk__/home'', disk_home)],
     tasks = [(WriteResults, Pending), (ClickEvents, Pending), (Loop ''Disk__/home'', Pending)],
     handlers = [], stdout = []\<rparr>"
  by (simp add: disk_runner_def register_module_def signal_example_def runner_init_def key_disk_home
      register_task_def Let_def)

lemma click_event_registered:
  assumes "loads raw = Inr ev"
    and "get_module_from_key r (ev_name ev) (ev_instance ev) = Some m"
  shows "click_event loads M r raw =
     (fst (m_click_handler M m (ev_args ev)),
      r\<lparr>modules := AList.update (format_opt (ev_name ev) @ ''__'' @ str_or (ev_instance ev) ''none'')
         (snd (m_click_handler M m (ev_args ev))) (modules r)\<rparr>)"
  using assms by (simp add: click_event_def split: prod.splits)

text \<open>
  C3. The code does not drop a click event whose key is not registered:
  \<^verbatim>\<open>self.modules.get(...)\<close> returns \<^verbatim>\<open>None\<close> and the call of \<^verbatim>\<open>click_handler\<close> on it
  raises \<^verbatim>\<open>AttributeError\<close> out of \<^verbatim>\<open>click_event\<close>; no handler is invoked and the
  runner is unchanged. In \<^verbatim>\<open>click_events\<close> the exception ends the reader task, without
  the write that follows a dispatched event.
\<close>

theorem click_event_unknown_key_raises:
  assumes "loads raw = Inr ev"
    and "get_module_from_key r (ev_name ev) (ev_instance ev) = None"
  shows "click_event loads M r raw =
       (Some (AttributeError (squoted ''NoneType'' @ '' object has no attribute ''
                  @ squoted ''click_handler'')), r)
     \<and> (map_of (tasks r) ClickEvents = Some Pending \<longrightarrow>
          click_events_step loads M r raw =
            r\<lparr>tasks := AList.update ClickEvents Done (tasks r)\<rparr>)"
  using assms by (simp add: click_event_def click_events_step_def)

theorem click_event_unknown_key_raises_witness:
  "get_module_from_key disk_runner (Some ''Disk'') (Some ''/home'') = Some disk_home
   \<and> get_module_from_key disk_runner (Some ''Disk'') (Some ''/var'') = None
   \<and> click_event loads_example static_methods disk_runner ''{Disk /var}'' =
       (Some (AttributeError (squoted ''NoneType'' @ '' object has no attribute ''
                  @ squoted ''click_handler'')), disk_runner)
   \<and> tasks (click_events_step loads_example static_methods disk_runner ''{Disk /var}'') =
       [(WriteResults, Pending), (ClickEvents, Done), (Loop ''Disk__/home'', Pending)]
   \<and> stdout (click_events_step loads_example static_methods disk_runner ''{Disk /var}'') = []"
proof -
  have l: "loads_example ''{Disk /var}'' = Inr (click ''Disk'' ''/var'')"
    by (simp add: loads_example_def)
  have g: "get_module_from_key disk_runner (ev_name (click ''Disk'' ''/var''))
      (ev_instance (click ''Disk'' ''/var'')) = None"
    by (simp add: get_module_from_key_def disk_runner_eq click_def format_opt_def str_or_def)
  have h: "get_module_from_key disk_runner (Some ''Disk'') (Some ''/home'') = Some disk_home"
    by (simp add: get_module_from_key_def disk_runner_eq format_opt_def str_or_def)
  have p: "map_of (tasks disk_runner) ClickEvents = Some Pending"
    by (simp add: disk_runner_eq)
  from click_event_unknown_key_raises [where loads = loads_example and raw = "''{Disk /var}''"
      and ev = "click ''Disk'' ''/var''" and r = disk_runner and M = static_methods] l p h g
  show ?thesis
    by (simp add: click_def) (simp add: disk_runner_eq)
qed

subsection \<open>The handlers of a polling block\<close>

lemma key_counter_block: "get_module_key counter_block = ''Clock__default''"
  by (simp add: counter_block_def polling_module_init_def module_init_def get_module_key_def
      str_or_def polling_module.defs module.defs update_def)

lemma more_counter_block: "polling_module.more counter_block = 0"
  by (simp add: counter_block_def polling_module_init_def polling_module.defs module.defs)

lemma counter_runner_eq:
  "counter_runner = \<lparr>runner_sleep = 1, modules = [(''Clock__default'', counter_block)],
     tasks = [(WriteResults, Pending), (ClickEvents, Pending), (Loop ''Clock__default'', Pending)],
     handlers = [(10, ''Clock__default'')], stdout = []\<rparr>"
  by (simp add: counter_runner_def register_module_def signal_example_def runner_init_def key_counter_block
      register_task_def Let_def)

text \<open>
  C9. The \<^verbatim>\<open>click_handler\<close> and the \<^verbatim>\<open>signal_handler\<close> of a polling block are one call
  of the block's \<^verbatim>\<open>run\<close>, whatever the arguments: same outcome, same new state. So a
  click event dispatched to a registered polling block leaves in the registry the
  block after one \<^verbatim>\<open>run\<close>, and so does a signal, after which the runner writes a
  line if \<^verbatim>\<open>run\<close> has not raised.
\<close>

theorem polling_handlers_run_once:
  "click_handler run self a = run self
   \<and> signal_handler run self n = run self
   \<and> click_handler run self a = click_handler run self a'
   \<and> signal_handler run self n = signal_handler run self n'
   \<and> (loads raw = Inr ev \<and> get_module_from_key r (ev_name ev) (ev_instance ev) = Some self \<longrightarrow>
        click_event loads (polling run) r raw =
          (fst (run self),
           r\<lparr>modules := AList.update
                (format_opt (ev_name ev) @ ''__'' @ str_or (ev_instance ev) ''none'')
                (snd (run self)) (modules r)\<rparr>))
   \<and> (map_of (modules r) key = Some self \<longrightarrow>
        handler (polling run) r key n =
          (case fst (run self) of
             None \<Rightarrow> write_result (r\<lparr>modules := AList.update key (snd (run self)) (modules r)\<rparr>)
           | Some e \<Rightarrow> r\<lparr>modules := AList.update key (snd (run self)) (modules r)\<rparr>))"
  by (auto simp: click_handler_def signal_handler_def click_event_def handler_def polling_def
      split: prod.splits option.splits)

theorem polling_handlers_run_once_witness:
  "polling_module.more counter_block = 0
   \<and> polling_module.more (snd (click_handler (counting_run 3) counter_block
        (ev_args (click ''Clock'' ''default'')))) = 1
   \<and> polling_module.more (snd (signal_handler (counting_run 3) counter_block 10)) = 1
   \<and> map (\<lambda>(k, m). (k, polling_module.more m))
        (modules (snd (click_event (\<lambda>raw. Inr (click ''Clock'' ''default''))
           (polling (counting_run 3)) counter_runner ''{}''))) = [(''Clock__default'', 1)]
   \<and> map (\<lambda>(k, m). (k, polling_module.more m))
        (modules (handler (polling (counting_run 3)) counter_runner ''Clock__default'' 10)) =
          [(''Clock__default'', 1)]"
proof -
  let ?ev = "click ''Clock'' ''default''"
  have g: "(\<lambda>raw. Inr ?ev) ''{}'' = Inr ?ev \<and>
      get_module_from_key counter_runner (ev_name ?ev) (ev_instance ?ev) = Some counter_block"
    by (simp add: get_module_from_key_def counter_runner_eq click_def format_opt_def str_or_def)
  have m: "map_of (modules counter_runner) ''Clock__default'' = Some counter_block"
    by (simp add: counter_runner_eq)
  have r: "counting_run 3 counter_block =
      (None, (update counter_block ''runs'' None (style_none\<lparr>min_width := Some 1\<rparr>))
               \<lparr>polling_module.more := 1\<rparr>)"
    by (simp add: counting_run_def more_counter_block)
  from polling_handlers_run_once [where run = "counting_run 3" and self = counter_block
      and a = "ev_args ?ev" and n = 10 and loads = "\<lambda>raw. Inr ?ev" and raw = "''{}''"
      and ev = ?ev and r = counter_runner and key = "''Clock__default''"] g m
  show ?thesis
    by (simp add: r more_counter_block write_result_def)
      (simp add: click_def format_opt_def str_or_def counter_runner_eq)
qed

subsection \<open>The tasks of a runner\<close>

lemma map_of_update_other: "k' \<noteq> k \<Longrightarrow> map_of (AList.update k v al) k' = map_of al k'"
  by (simp add: update_conv')

lemma map_of_update_same: "map_of (AList.update k v al) k = Some v"
  by (simp add: update_conv')

lemma update_keys_present:
  "map_of al k = Some v' \<Longrightarrow> map fst (AList.update k v al) = map fst al"
proof -
  assume "map_of al k = Some v'"
  then have "(k, v') \<in> set al" by (rule map_of_SomeD)
  then have "k \<in> set (map fst al)" by force
  then show ?thesis by (simp add: AList.update_keys)
qed

lemma write_result_simps [simp]:
  "modules (write_result r) = modules r" "tasks (write_result r) = tasks r"
  "handlers (write_result r) = handlers r"
  by (simp_all add: write_result_def)

lemma click_event_tasks [simp]: "tasks (snd (click_event loads M r raw)) = tasks r"
  by (simp add: click_event_def split: sum.splits option.splits prod.splits)

lemma click_event_stdout [simp]: "stdout (snd (click_event loads M r raw)) = stdout r"
  by (simp add: click_event_def split: sum.splits option.splits prod.splits)

lemma click_event_keys [simp]:
  "map fst (modules (snd (click_event loads M r raw))) = map fst (modules r)"
  by (auto simp: click_event_def get_module_from_key_def update_keys_present
      split: sum.splits option.splits prod.splits)

lemma click_events_step_eq:
  "click_events_step loads M r raw =
     (if map_of (tasks r) ClickEvents = Some Pending then
        (case fst (click_event loads M r raw) of
           None \<Rightarrow> write_result (snd (click_event loads M r raw))
         | Some e \<Rightarrow> (snd (click_event loads M r raw))
             \<lparr>tasks := AList.update ClickEvents Done (tasks r)\<rparr>)
      else r)"
proof -
  obtain e r1 where c: "click_event loads M r raw = (e, r1)"
    by (cases "click_event loads M r raw")
  have "tasks r1 = tasks r"
    using click_event_tasks [of loads M r raw] by (simp add: c)
  then show ?thesis
    by (simp add: click_events_step_def c split: option.splits)
qed

lemma handler_tasks [simp]: "tasks (handler M r key signum) = tasks r"
  by (simp add: handler_def Let_def split: option.splits prod.splits)

lemma handler_keys [simp]: "map fst (modules (handler M r key signum)) = map fst (modules r)"
  by (auto simp: handler_def Let_def update_keys_present split: option.splits prod.splits)

lemma loop_resume_not_pending:
  "map_of (tasks r) (Loop key) \<noteq> Some Pending \<Longrightarrow> loop_resume M r key = r"
  by (simp add: loop_resume_def)

lemma loop_resume_keys [simp]: "map fst (modules (loop_resume M r key)) = map fst (modules r)"
  by (auto simp: loop_resume_def update_keys_present split: option.splits prod.splits)

lemma loop_resume_stdout [simp]: "stdout (loop_resume M r key) = stdout r"
  by (simp add: loop_resume_def split: option.splits prod.splits)

lemma loop_resume_other_module:
  "k' \<noteq> key \<Longrightarrow> map_of (modules (loop_resume M r key)) k' = map_of (modules r) k'"
  by (simp add: loop_resume_def map_of_update_other split: option.splits prod.splits)

lemma loop_resume_other_task:
  "t \<noteq> Loop key \<Longrightarrow> map_of (tasks (loop_resume M r key)) t = map_of (tasks r) t"
  by (simp add: loop_resume_def map_of_update_other split: option.splits prod.splits)

lemma step_keys [simp]: "map fst (modules (step loads M r occ)) = map fst (modules r)"
  by (cases occ)
    (simp_all add: write_results_step_def click_events_step_eq split: option.splits)

lemma step_done:
  "map_of (tasks r) t = Some Done \<Longrightarrow> map_of (tasks (step loads M r occ)) t = Some Done"
proof (cases occ)
  case Tick
  assume "map_of (tasks r) t = Some Done"
  with Tick show ?thesis by (simp add: write_results_step_def)
next
  case (Wake key)
  assume d: "map_of (tasks r) t = Some Done"
  show ?thesis
  proof (cases "t = Loop key")
    case True
    with d Wake show ?thesis by (simp add: loop_resume_not_pending)
  next
    case False
    with d Wake show ?thesis by (simp add: loop_resume_other_task)
  qed
next
  case (Input raw)
  assume d: "map_of (tasks r) t = Some Done"
  with Input show ?thesis
    by (cases "t = ClickEvents")
      (simp_all add: click_events_step_eq map_of_update_other map_of_update_same
        split: option.splits)
next
  case (Signal n)
  assume "map_of (tasks r) t = Some Done"
  with Signal show ?thesis by (simp split: option.splits)
qed

lemma timers_leave_done_block:
  assumes "map_of (tasks r) (Loop key) = Some Done"
    and "\<forall>occ \<in> set occs. is_timer occ"
  shows "map_of (modules (foldl (step loads M) r occs)) key = map_of (modules r) key"
  using assms
proof (induction occs arbitrary: r)
  case Nil
  then show ?case by simp
next
  case (Cons occ occs)
  have d: "map_of (tasks (step loads M r occ)) (Loop key) = Some Done"
    using Cons.prems(1) by (rule step_done)
  have "map_of (modules (step loads M r occ)) key = map_of (modules r) key"
  proof (cases occ)
    case Tick
    then show ?thesis by (simp add: write_results_step_def)
  next
    case (Wake k')
    show ?thesis
    proof (cases "k' = key")
      case True
      with Wake Cons.prems(1) show ?thesis by (simp add: loop_resume_not_pending)
    next
      case False
      with Wake show ?thesis by (simp add: loop_resume_other_module)
    qed
  next
    case (Input raw)
    with Cons.prems(2) show ?thesis by simp
  next
    case (Signal n)
    with Cons.prems(2) show ?thesis by simp
  qed
  moreover have "map_of (modules (foldl (step loads M) (step loads M r occ) occs)) key =
      map_of (modules (step loads M r occ)) key"
    using d Cons.prems(2) by (intro Cons.IH) simp_all
  ultimately show ?case by simp
qed

subsection \<open>The loop of a polling block\<close>

lemma loop_add:
  "loop run (a + b) self =
     (case loop run a self of (Pending, self') \<Rightarrow> loop run b self' | res \<Rightarrow> res)"
proof (induction a arbitrary: self)
  case 0
  then show ?case by simp
next
  case (Suc a)
  then show ?case
    by (cases "loop_step run self") (simp split: task_state.splits)
qed

lemma loop_step_raise:
  "run self = (Some e, self') \<Longrightarrow>
   loop_step run self =
     (Done, update self' (''Exception in '' @ name self' @ '': '' @ str_exn e) None
              (style_none\<lparr>urgent := Some True\<rparr>))"
  by (simp add: loop_step_def)

lemma update_full_text:
  "map_of (state (update m ft st s)) ''full_text'' = Some (Some (VStr ft))"
  by (simp add: update_def)

lemma update_urgent:
  "map_of (state (update m ft st s)) ''urgent'' =
     Some (map_option VBool (case urgent s of Some x \<Rightarrow> Some x | None \<Rightarrow> urgent (defaults m)))"
  by (simp add: update_def get_value_or_default_def getattr_def split: option.splits)

text \<open>
  C1. Let a polling block have gone through \<open>n\<close> cycles of its loop, and let its next
  \<^verbatim>\<open>run\<close> raise \<open>e\<close>. Then this resumption of the loop ends it, with the snapshot
  \<open>d\<close> that \<^verbatim>\<open>update\<close> writes: an urgent snapshot whose text is \<^verbatim>\<open>Exception in\<close>, the
  block's name and the text of \<open>e\<close>. The loop has returned for every number of cycles
  above \<open>n\<close>, always with this result. In a runner where the block is registered under
  \<open>key\<close> and its task is pending, the resumption stores \<open>d\<close>, marks the task done and
  changes no other block, no other task and nothing of the output; afterwards the task
  is never resumed: whatever the methods of the blocks, no sequence of timers changes
  the block again.
\<close>

theorem polling_loop_failure:
  assumes "loop run n self = (Pending, self1)"
    and "run self1 = (Some e, self2)"
    and "d = update self2 (''Exception in '' @ name self2 @ '': '' @ str_exn e) None
               (style_none\<lparr>urgent := Some True\<rparr>)"
    and "r' = loop_resume (polling run) r key"
  shows "loop_step run self1 = (Done, d)
     \<and> (\<forall>k. loop run (n + Suc k) self = (Done, d))
     \<and> map_of (state d) ''full_text'' =
         Some (Some (VStr (''Exception in '' @ name self2 @ '': '' @ str_exn e)))
     \<and> map_of (state d) ''urgent'' = Some (Some (VBool True))
     \<and> (map_of (modules r) key = Some self1 \<and> map_of (tasks r) (Loop key) = Some Pending \<longrightarrow>
          map_of (modules r') key = Some d
        \<and> map_of (tasks r') (Loop key) = Some Done
        \<and> (\<forall>k'. k' \<noteq> key \<longrightarrow> map_of (modules r') k' = map_of (modules r) k')
        \<and> (\<forall>t. t \<noteq> Loop key \<longrightarrow> map_of (tasks r') t = map_of (tasks r) t)
        \<and> map fst (modules r') = map fst (modules r)
        \<and> stdout r' = stdout r
        \<and> (\<forall>M. loop_resume M r' key = r')
        \<and> (\<forall>loads M occs. (\<forall>occ \<in> set occs. is_timer occ) \<longrightarrow>
              map_of (modules (foldl (step loads M) r' occs)) key = Some d))"
proof -
  have st: "loop_step run self1 = (Done, d)"
    using assms(2,3) by (simp add: loop_step_raise)
  have fuel: "loop run (n + Suc k) self = (Done, d)" for k
    by (simp only: loop_add assms(1)) (simp add: st)
  have dtext: "map_of (state d) ''full_text'' =
         Some (Some (VStr (''Exception in '' @ name self2 @ '': '' @ str_exn e)))"
    by (simp add: assms(3) update_full_text)
  have urg: "map_of (state d) ''urgent'' = Some (Some (VBool True))"
    by (simp add: assms(3) update_urgent)
  have sys: "map_of (modules r') key = Some d
        \<and> map_of (tasks r') (Loop key) = Some Done
        \<and> (\<forall>k'. k' \<noteq> key \<longrightarrow> map_of (modules r') k' = map_of (modules r) k')
        \<and> (\<forall>t. t \<noteq> Loop key \<longrightarrow> map_of (tasks r') t = map_of (tasks r) t)
        \<and> map fst (modules r') = map fst (modules r)
        \<and> stdout r' = stdout r
        \<and> (\<forall>M. loop_resume M r' key = r')
        \<and> (\<forall>loads M occs. (\<forall>occ \<in> set occs. is_timer occ) \<longrightarrow>
              map_of (modules (foldl (step loads M) r' occs)) key = Some d)"
    if m: "map_of (modules r) key = Some self1" and p: "map_of (tasks r) (Loop key) = Some Pending"
  proof -
    have r': "r' = r\<lparr>modules := AList.update key d (modules r),
                     tasks := AList.update (Loop key) Done (tasks r)\<rparr>"
      by (simp add: assms(4) loop_resume_def m p polling_def st)
    have md: "map_of (modules r') key = Some d"
      by (simp add: r' map_of_update_same)
    have td: "map_of (tasks r') (Loop key) = Some Done"
      by (simp add: r' map_of_update_same)
    have never: "loop_resume M r' key = r'" for M
      by (rule loop_resume_not_pending) (simp add: td)
    have timers: "map_of (modules (foldl (step loads M) r' occs)) key = Some d"
      if "\<forall>occ \<in> set occs. is_timer occ" for loads M occs
      using timers_leave_done_block [OF td that] by (simp add: md)
    have others: "\<forall>k'. k' \<noteq> key \<longrightarrow> map_of (modules r') k' = map_of (modules r) k'"
      "\<forall>t. t \<noteq> Loop key \<longrightarrow> map_of (tasks r') t = map_of (tasks r) t"
      "map fst (modules r') = map fst (modules r)" "stdout r' = stdout r"
      by (simp_all add: assms(4) loop_resume_other_module loop_resume_other_task)
    from md td never timers others show ?thesis by blast
  qed
  from st fuel dtext urg sys show ?thesis by blast
qed

lemma counting_run_ok:
  "polling_module.more self < limit \<Longrightarrow>
   counting_run limit self =
     (None, (update self ''runs'' None
                  (style_none\<lparr>min_width := Some (int (polling_module.more self) + 1)\<rparr>))
               \<lparr>polling_module.more := Suc (polling_module.more self)\<rparr>)"
  by (simp add: counting_run_def)

lemma counting_run_raise:
  "\<not> polling_module.more self < limit \<Longrightarrow>
   counting_run limit self =
     (Some (OtherError ''sensor gone''),
      self\<lparr>polling_module.more := Suc (polling_module.more self)\<rparr>)"
  by (simp add: counting_run_def)

lemma update_more [simp]: "polling_module.more (update m ft st s) = polling_module.more m"
  by (simp add: update_def)

lemma name_counter_block: "name counter_block = ''Clock''"
  by (simp add: counter_block_def polling_module_init_def module_init_def
      str_or_def polling_module.defs module.defs update_def)

lemma singleton_alist: "map fst al = [k] \<Longrightarrow> map_of al k = Some v \<Longrightarrow> al = [(k, v)]"
  by (cases al) auto

theorem polling_loop_failure_witness:
  "fst (loop (counting_run 2) 2 counter_block) = Pending
   \<and> fst (loop (counting_run 2) 9 counter_block) = Done
   \<and> polling_module.more (snd (loop (counting_run 2) 9 counter_block)) = 3
   \<and> map_of (state (snd (loop (counting_run 2) 9 counter_block))) ''full_text'' =
       Some (Some (VStr ''Exception in Clock: sensor gone''))
   \<and> map_of (state (snd (loop (counting_run 2) 9 counter_block))) ''urgent'' =
       Some (Some (VBool True))
   \<and> map_of (tasks (foldl (step loads_example (polling (counting_run 2))) counter_runner
        [Wake ''Clock__default'', Tick, Wake ''Clock__default'', Wake ''Clock__default'']))
        (Loop ''Clock__default'') = Some Done
   \<and> map (\<lambda>(k, m). (k, polling_module.more m, map_of (state m) ''full_text''))
        (modules (foldl (step loads_example (polling (counting_run 2))) counter_runner
           [Wake ''Clock__default'', Tick, Wake ''Clock__default'', Wake ''Clock__default'',
            Tick, Wake ''Clock__default'', Wake ''Clock__default''])) =
       [(''Clock__default'', 3, Some (Some (VStr ''Exception in Clock: sensor gone'')))]"
proof -
  let ?run = "counting_run 2"
  let ?k = "''Clock__default''"
  define s1 where "s1 = snd (loop_step ?run counter_block)"
  define s2 where "s2 = snd (loop_step ?run s1)"
  define s3 where "s3 = s2\<lparr>polling_module.more := 3\<rparr>"
  define d where "d = update s3 (''Exception in '' @ name s3 @ '': '' @ str_exn (OtherError ''sensor gone''))
     None (style_none\<lparr>urgent := Some True\<rparr>)"
  have l1: "loop_step ?run counter_block = (Pending, s1)" and m1: "polling_module.more s1 = 1"
    and n1: "name s1 = ''Clock''"
    by (simp_all add: s1_def loop_step_def counting_run_ok more_counter_block name_counter_block)
  have l2: "loop_step ?run s1 = (Pending, s2)" and m2: "polling_module.more s2 = 2"
    and n2: "name s2 = ''Clock''"
    by (simp_all add: s2_def loop_step_def counting_run_ok m1 n1)
  have r3: "?run s2 = (Some (OtherError ''sensor gone''), s3)"
    by (simp add: counting_run_raise m2 s3_def)
  have n3: "name s3 = ''Clock''" and m3: "polling_module.more d = 3"
    by (simp_all add: s3_def n2 d_def)
  have "loop run (Suc (Suc 0)) counter_block = (Pending, s2)"
    if "loop_step run counter_block = (Pending, s1)" "loop_step run s1 = (Pending, s2)" for run
    using that by simp
  from this [OF l1 l2] have lp: "loop ?run 2 counter_block = (Pending, s2)"
    by (simp only: numeral_2_eq_2 [symmetric])
  define r where "r = foldl (step loads_example (polling ?run)) counter_runner [Wake ?k, Tick, Wake ?k]"
  have rm: "map_of (modules r) ?k = Some s2" and rt: "map_of (tasks r) (Loop ?k) = Some Pending"
    and rk: "map fst (modules r) = [?k]"
    by (simp_all add: r_def counter_runner_eq loop_resume_def polling_def l1 l2
        write_results_step_def write_result_def)
  note main = polling_loop_failure [OF lp r3 d_def refl, of r ?k]
  have nine: "(9::nat) = 2 + Suc 6" by simp
  have a: "loop ?run 9 counter_block = (Done, d)"
    using main unfolding nine by blast
  have b: "map_of (state d) ''full_text'' = Some (Some (VStr ''Exception in Clock: sensor gone''))"
    by (simp add: d_def update_full_text n3)
  from main have c: "map_of (state d) ''urgent'' = Some (Some (VBool True))"
    by blast
  let ?r' = "loop_resume (polling ?run) r ?k"
  have tm: "\<forall>occ \<in> set [Tick, Wake ?k, Wake ?k]. is_timer occ" by simp
  from main rm rt have e: "map_of (tasks ?r') (Loop ?k) = Some Done" by blast
  from main rm rt tm
  have g: "map_of (modules (foldl (step loads_example (polling ?run)) ?r' [Tick, Wake ?k, Wake ?k])) ?k
        = Some d"
    by blast
  have k': "map fst (modules (foldl (step loads_example (polling ?run)) ?r' [Tick, Wake ?k, Wake ?k]))
      = [?k]"
    by (simp only: foldl_Cons foldl_Nil step_keys loop_resume_keys rk)
  have h: "modules (foldl (step loads_example (polling ?run)) ?r' [Tick, Wake ?k, Wake ?k]) = [(?k, d)]"
    using k' g by (rule singleton_alist)
  have unf4: "foldl (step loads_example (polling ?run)) counter_runner [Wake ?k, Tick, Wake ?k, Wake ?k]
      = ?r'"
    by (simp add: r_def)
  have unf7: "foldl (step loads_example (polling ?run)) counter_runner
      [Wake ?k, Tick, Wake ?k, Wake ?k, Tick, Wake ?k, Wake ?k]
      = foldl (step loads_example (polling ?run)) ?r' [Tick, Wake ?k, Wake ?k]"
    by (simp add: r_def)
  show ?thesis
    unfolding unf4 unf7 h a
    by (simp add: lp e m3 b c)
qed

subsection \<open>The reader\<close>

lemma step_writer:
  "map_of (tasks (step loads M r occ)) WriteResults = map_of (tasks r) WriteResults"
proof (cases occ)
  case Tick
  then show ?thesis by (simp add: write_results_step_def)
next
  case (Wake key)
  then show ?thesis by (simp add: loop_resume_other_task)
next
  case (Input raw)
  then show ?thesis
    by (simp add: click_events_step_eq map_of_update_other split: option.splits)
next
  case (Signal n)
  then show ?thesis by (simp split: option.splits)
qed

lemma steps_writer:
  "map_of (tasks (foldl (step loads M) r occs)) WriteResults = map_of (tasks r) WriteResults"
  by (induction occs arbitrary: r) (simp_all add: step_writer)


lemma steps_keys [simp]: "map fst (modules (foldl (step loads M) r occs)) = map fst (modules r)"
  by (induction occs arbitrary: r) simp_all




subsection \<open>The writer\<close>

lemma register_module_ok:
  assumes "register_module sg r0 m sigs = (None, r1)"
  shows "modules r1 = modules r0 @ [(get_module_key m, m)]"
    and "map_of (tasks r1) WriteResults = map_of (tasks r0) WriteResults"
    and "map_of (tasks r1) ClickEvents = map_of (tasks r0) ClickEvents"
    and "stdout r1 = stdout r0"
proof -
  have fresh: "get_module_key m \<notin> fst ` set (modules r0)"
    using assms by (auto simp: register_module_def Let_def split: if_splits)
  have r1: "r1 = snd (register_module sg r0 m sigs)"
    by (simp add: assms)
  show "modules r1 = modules r0 @ [(get_module_key m, m)]" and "stdout r1 = stdout r0"
    by (simp_all add: r1 register_module_fresh [OF fresh])
  have "tasks r1 = tasks r0 @ [(Loop (get_module_key m), Pending)]"
    by (simp add: r1 register_module_fresh [OF fresh])
  then show "map_of (tasks r1) WriteResults = map_of (tasks r0) WriteResults"
    and "map_of (tasks r1) ClickEvents = map_of (tasks r0) ClickEvents"
    by (simp_all add: map_add_def split: option.splits)
qed

lemma register_modules_ok:
  "register_modules sg r0 regs = (None, r) \<Longrightarrow>
     modules r = modules r0 @ map (\<lambda>(m, sigs). (get_module_key m, m)) regs
   \<and> map_of (tasks r) WriteResults = map_of (tasks r0) WriteResults
   \<and> map_of (tasks r) ClickEvents = map_of (tasks r0) ClickEvents
   \<and> stdout r = stdout r0"
proof (induction regs arbitrary: r0)
  case Nil
  then show ?case by simp
next
  case (Cons reg regs)
  obtain m sigs where reg: "reg = (m, sigs)" by (cases reg)
  obtain e1 r1 where r1: "register_module sg r0 m sigs = (e1, r1)"
    by (cases "register_module sg r0 m sigs")
  with Cons.prems reg have e1: "e1 = None" and rest: "register_modules sg r1 regs = (None, r)"
    by (simp_all split: option.splits)
  from r1 e1 have "register_module sg r0 m sigs = (None, r1)" by simp
  from register_module_ok [OF this] Cons.IH [OF rest] show ?case
    by (simp add: reg)
qed

text \<open>
  C4. Let the registrations \<open>regs\<close> all have succeeded, from a runner \<open>r0\<close> to the
  runner \<open>r\<close>, and let \<open>r'\<close> be the runner after anything that can happen later,
  in any order: timers of blocks, clicks, signals, ticks. Then the registry of \<open>r\<close>
  holds the blocks of \<open>regs\<close> in their order after those of \<open>r0\<close>; the registry of
  \<open>r'\<close> has the same keys in the same order; \<^verbatim>\<open>write_result\<close> in \<open>r'\<close> writes one array
  with the \<^verbatim>\<open>result()\<close> of each entry in that order; and that is what a tick of a
  pending writer writes.
\<close>

theorem write_result_registration_order:
  assumes "register_modules sg r0 regs = (None, r)"
    and "r' = foldl (step loads M) r occs"
  shows "map snd (modules r) = map snd (modules r0) @ map fst regs
     \<and> map fst (modules r') = map fst (modules r0) @ map (\<lambda>(m, sigs). get_module_key m) regs
     \<and> length (modules r') = length (modules r0) + length regs
     \<and> stdout (write_result r') = stdout r' @ ''['' @
         join '','' (map (\<lambda>m. json_dumps (result m)) (map snd (modules r'))) @ ''],''
           @ [newline]
     \<and> (map_of (tasks r0) WriteResults = Some Pending \<longrightarrow>
          step loads M r' Tick = write_result r')"
proof -
  note ok = register_modules_ok [OF assms(1)]
  have a: "map snd (modules r) = map snd (modules r0) @ map fst regs"
    using ok by (simp add: case_prod_beta comp_def)
  have b: "map fst (modules r') =
      map fst (modules r0) @ map (\<lambda>(m, sigs). get_module_key m) regs"
    using ok by (simp add: assms(2) case_prod_beta comp_def)
  have "length (map fst (modules r')) = length (modules r0) + length regs"
    unfolding b by simp
  then have c: "length (modules r') = length (modules r0) + length regs"
    by simp
  have d: "stdout (write_result r') = stdout r' @ ''['' @
         join '','' (map (\<lambda>m. json_dumps (result m)) (map snd (modules r'))) @ ''],''
           @ [newline]"
    by (simp add: write_result_def)
  have e: "step loads M r' Tick = write_result r'"
    if "map_of (tasks r0) WriteResults = Some Pending"
    using that ok by (simp add: assms(2) steps_writer write_results_step_def)
  from a b c d e show ?thesis by blast
qed

lemma key_block_mem: "get_module_key (block ''Mem'' None) = ''Mem__none''"
  by (simp add: get_module_key_def str_or_def)

theorem write_result_registration_order_witness:
  "fst (register_modules signal_example (runner_init 1)
        [(disk_home, []), (block ''Mem'' None, [10])]) = None
   \<and> map fst (modules (foldl (step loads_example static_methods)
        (snd (register_modules signal_example (runner_init 1)
            [(disk_home, []), (block ''Mem'' None, [10])]))
        [Tick, Signal 10, Tick, Input ''{Disk /home}''])) = [''Disk__/home'', ''Mem__none'']
   \<and> map (\<lambda>m. map_of (state m) ''full_text'')
        (map snd (modules (foldl (step loads_example static_methods)
          (snd (register_modules signal_example (runner_init 1)
            [(disk_home, []), (block ''Mem'' None, [10])]))
          [Tick, Signal 10, Tick, Input ''{Disk /home}'']))) =
       [Some (Some (VStr ''click'')), Some (Some (VStr ''signal''))]"
proof -
  let ?regs = "[(disk_home, []), (block ''Mem'' None, [10])]"
  let ?occs = "[Tick, Signal 10, Tick, Input ''{Disk /home}'']"
  define r where "r = snd (register_modules signal_example (runner_init 1) ?regs)"
  define r' where "r' = foldl (step loads_example static_methods) r ?occs"
  have reg: "register_modules signal_example (runner_init 1) ?regs = (None, r)"
    and ms: "modules r = [(''Disk__/home'', disk_home), (''Mem__none'', block ''Mem'' None)]"
    and hs: "handlers r = [(10, ''Mem__none'')]"
    and ts: "map_of (tasks r) ClickEvents = Some Pending"
    by (simp_all add: r_def register_module_def signal_example_def runner_init_def key_disk_home key_block_mem
        register_task_def Let_def)
  from write_result_registration_order [OF reg r'_def]
  have keys: "map fst (modules r') = [''Disk__/home'', ''Mem__none'']"
    by (simp add: runner_init_def key_disk_home key_block_mem)
  have l: "loads_example ''{Disk /home}'' = Inr (click ''Disk'' ''/home'')"
    by (simp add: loads_example_def)
  have texts: "map (\<lambda>m. map_of (state m) ''full_text'') (map snd (modules r')) =
       [Some (Some (VStr ''click'')), Some (Some (VStr ''signal''))]"
    by (simp add: r'_def write_results_step_def hs handler_def ms static_methods_def
        click_events_step_eq ts click_event_def l get_module_from_key_def click_def
        format_opt_def str_or_def update_full_text)
  from reg have f: "fst (register_modules signal_example (runner_init 1) ?regs) = None"
    by simp
  from f keys [unfolded r'_def r_def] texts [unfolded r'_def r_def] show ?thesis
    by (intro conjI)
qed

subsection \<open>The output\<close>

lemma hex_digit_not_newline: "hex_digit n \<noteq> newline"
proof -
  have "hex_digit n \<in> set ''0123456789abcdef''"
    unfolding hex_digit_def by (rule nth_mem) simp
  moreover have "newline \<notin> set ''0123456789abcdef''"
    by (simp add: newline_def)
  ultimately show ?thesis by metis
qed

lemma escape_char_no_newline: "newline \<notin> set (escape_char c)"
  using hex_digit_not_newline [of "of_char c div 16"] hex_digit_not_newline [of "of_char c mod 16"]
  by (auto simp: escape_char_def newline_def dquote_def backslash_def)

lemma dumps_str_no_newline: "newline \<notin> set (dumps_str s)"
proof -
  have "newline \<noteq> dquote" by (simp add: dquote_def newline_def)
  then show ?thesis
    by (auto simp: dumps_str_def escape_char_no_newline)
qed

lemma digit_not_newline: "n < 10 \<Longrightarrow> ''0123456789'' ! n \<noteq> newline"
proof -
  assume "n < 10"
  then have "''0123456789'' ! n \<in> set ''0123456789''" by (intro nth_mem) simp
  moreover have "newline \<notin> set ''0123456789''"
    by (simp add: newline_def)
  ultimately show ?thesis by metis
qed

lemma dec_nat_no_newline: "newline \<notin> set (dec_nat n)"
proof (induction n rule: dec_nat.induct)
  case (1 n)
  show ?case
  proof (cases "n < 10")
    case True
    then have "dec_nat n = [''0123456789'' ! n]"
      by (subst dec_nat.simps) simp
    with True show ?thesis
      using digit_not_newline [of n] by (auto simp del: dec_nat.simps)
  next
    case False
    then have e: "dec_nat n = dec_nat (n div 10) @ [''0123456789'' ! (n mod 10)]"
      by (subst dec_nat.simps) simp
    have "n mod 10 < 10" by simp
    then have "''0123456789'' ! (n mod 10) \<noteq> newline" by (rule digit_not_newline)
    with False 1 show ?thesis
      unfolding e by (auto simp del: dec_nat.simps)
  qed
qed

lemma dumps_val_no_newline: "newline \<notin> set (dumps_val v)"
proof (cases v)
  case (VStr s)
  then show ?thesis by (simp add: dumps_str_no_newline)
next
  case (VInt i)
  have "newline \<noteq> CHR ''-''" by (simp add: newline_def)
  with VInt show ?thesis by (simp add: dec_int_def dec_nat_no_newline del: dec_nat.simps)
next
  case (VBool b)
  then show ?thesis by (simp add: newline_def)
qed

lemma join_avoids:
  "c \<notin> set sep \<Longrightarrow> \<forall>x \<in> set xs. c \<notin> set x \<Longrightarrow> c \<notin> set (join sep xs)"
  by (induction sep xs rule: join.induct) auto

lemma json_dumps_no_newline: "newline \<notin> set (json_dumps d)"
proof -
  have sep: "newline \<notin> set '', ''" and col: "newline \<notin> set '': ''"
    and br: "newline \<notin> set ''{''" "newline \<notin> set ''}''"
    by (simp_all add: newline_def)
  have "\<forall>x \<in> set (map (\<lambda>(k, v). dumps_str k @ '': '' @ dumps_val v) d). newline \<notin> set x"
    using col by (auto simp: dumps_str_no_newline dumps_val_no_newline simp del: dec_nat.simps)
  with sep have "newline \<notin> set (join '', '' (map (\<lambda>(k, v). dumps_str k @ '': '' @ dumps_val v) d))"
    by (rule join_avoids)
  with br show ?thesis by (simp add: json_dumps_def)
qed

lemma array_no_newline: "newline \<notin> set (''['' @ join '','' (map json_dumps ds) @ ''],'')"
proof -
  have sep: "newline \<notin> set '',''" and br: "newline \<notin> set ''[''" "newline \<notin> set ''],''"
    by (simp_all add: newline_def)
  have "\<forall>x \<in> set (map json_dumps ds). newline \<notin> set x"
    by (simp add: json_dumps_no_newline)
  with sep have "newline \<notin> set (join '','' (map json_dumps ds))"
    by (rule join_avoids)
  with br show ?thesis by simp
qed

lemma write_result_stdout:
  "stdout (write_result r) = stdout r @
     ''['' @ join '','' (map json_dumps (map result (map snd (modules r)))) @ ''],'' @ [newline]"
  by (simp add: write_result_def comp_def)

lemma step_output:
  "\<exists>ls. stdout (step loads M r occ) = stdout r @ concat ls
     \<and> (\<forall>l \<in> set ls. \<exists>ds. l = ''['' @ join '','' (map json_dumps ds) @ ''],'' @ [newline])"
proof -
  have one: "\<exists>ls. stdout (write_result r1) = stdout r1 @ concat ls
     \<and> (\<forall>l \<in> set ls. \<exists>ds. l = ''['' @ join '','' (map json_dumps ds) @ ''],'' @ [newline])"
    for r1 :: "('a module_scheme) runner"
  proof -
    let ?l = "''['' @ join '','' (map json_dumps (map result (map snd (modules r1))))
          @ ''],'' @ [newline]"
    have "stdout (write_result r1) = stdout r1 @ concat [?l]"
      by (simp add: write_result_stdout)
    moreover have "\<forall>l \<in> set [?l].
        \<exists>ds. l = ''['' @ join '','' (map json_dumps ds) @ ''],'' @ [newline]"
      by (intro ballI exI [of _ "map result (map snd (modules r1))"]) simp
    ultimately show ?thesis by blast
  qed
  have none: "\<exists>ls. stdout r = stdout r @ concat ls
     \<and> (\<forall>l \<in> set ls. \<exists>ds. l = ''['' @ join '','' (map json_dumps ds) @ ''],'' @ [newline])"
    by (rule exI [of _ "[]"]) simp
  show ?thesis
  proof (cases occ)
    case Tick
    with one [of r] none show ?thesis by (simp add: write_results_step_def)
  next
    case (Wake key)
    with none show ?thesis by simp
  next
    case (Input raw)
    show ?thesis
      using one [of "snd (click_event loads M r raw)"] none
      by (simp add: Input click_events_step_eq split: option.splits)
  next
    case (Signal n)
    show ?thesis
    proof (cases "map_of (handlers r) n")
      case None
      with Signal none show ?thesis by simp
    next
      case (Some key)
      show ?thesis
      proof (cases "map_of (modules r) key")
        case None
        with Signal Some none show ?thesis by (simp add: handler_def)
      next
        case (Some m)
        obtain e m' where h: "m_signal_handler M m n = (e, m')"
          by (cases "m_signal_handler M m n")
        show ?thesis
          using one [of "r\<lparr>modules := AList.update key m' (modules r)\<rparr>"] none
          by (cases e) (simp_all add: Signal \<open>map_of (handlers r) n = Some key\<close> Some handler_def h)
      qed
    qed
  qed
qed

lemma steps_output:
  "\<exists>ls. stdout (foldl (step loads M) r occs) = stdout r @ concat ls
     \<and> (\<forall>l \<in> set ls. \<exists>ds. l = ''['' @ join '','' (map json_dumps ds) @ ''],'' @ [newline])"
proof (induction occs arbitrary: r)
  case Nil
  show ?case by (rule exI [of _ "[]"]) simp
next
  case (Cons occ occs)
  obtain ls1 where 1: "stdout (step loads M r occ) = stdout r @ concat ls1"
    "\<forall>l \<in> set ls1. \<exists>ds. l = ''['' @ join '','' (map json_dumps ds) @ ''],'' @ [newline]"
    using step_output [of loads M r occ] by blast
  obtain ls2 where 2: "stdout (foldl (step loads M) (step loads M r occ) occs) =
      stdout (step loads M r occ) @ concat ls2"
    "\<forall>l \<in> set ls2. \<exists>ds. l = ''['' @ join '','' (map json_dumps ds) @ ''],'' @ [newline]"
    using Cons.IH [of "step loads M r occ"] by blast
  show ?case
    by (rule exI [of _ "ls1 @ ls2"]) (use 1 2 in auto)
qed

lemma ticks_only:
  "map_of (tasks r) WriteResults = Some Pending \<Longrightarrow>
   foldl (step loads M) r (replicate n Tick) = r\<lparr>stdout := stdout r @ concat (replicate n
     (''['' @ join '','' (map json_dumps (map result (map snd (modules r)))) @ ''],''
        @ [newline]))\<rparr>"
proof (induction n arbitrary: r)
  case 0
  then show ?case by simp
next
  case (Suc n)
  let ?l = "''['' @ join '','' (map json_dumps (map result (map snd (modules r)))) @ ''],''
        @ [newline]"
  have s: "write_results_step r = r\<lparr>stdout := stdout r @ ?l\<rparr>"
    using Suc.prems by (simp add: write_results_step_def write_result_def comp_def)
  have "map_of (tasks (r\<lparr>stdout := stdout r @ ?l\<rparr>)) WriteResults = Some Pending"
    using Suc.prems by simp
  from Suc.IH [OF this] show ?case
    by (simp add: s)
qed

text \<open>
  C8. The header that \<^verbatim>\<open>start\<close> writes first is one line, an object with the version
  number 1 and the flag \<^verbatim>\<open>click_events\<close> set to \<^verbatim>\<open>true\<close>, and one line holding an
  opening bracket. Everything written after it until \<^verbatim>\<open>start\<close> returns is a sequence
  of lines, each one an opening bracket, the \<^verbatim>\<open>json.dumps\<close> texts of some dicts
  joined by commas, a closing bracket and a comma, with its only line break at its
  end. While the writer is pending each tick writes exactly one such line, with the
  \<^verbatim>\<open>result()\<close> of the registered blocks; when only ticks occur, \<open>n\<close> of them write
  \<open>n\<close> lines.
\<close>

theorem start_output:
  "header = ''{'' @ dumps_str ''version'' @ '': '' @ dec_int 1 @ '', '' @
       dumps_str ''click_events'' @ '': true}'' @ [newline] @ ''['' @ [newline]
   \<and> newline \<notin> set (''{'' @ dumps_str ''version'' @ '': '' @ dec_int 1 @ '', '' @
       dumps_str ''click_events'' @ '': true}'')
   \<and> (\<exists>ls. stdout (start loads M r occs) = stdout r @ header @ concat ls
        \<and> (\<forall>l \<in> set ls. \<exists>ds. l = ''['' @ join '','' (map json_dumps ds) @ ''],'' @ [newline]
              \<and> newline \<notin> set (butlast l)))
   \<and> (map_of (tasks r) WriteResults = Some Pending \<longrightarrow>
        stdout (step loads M (foldl (step loads M) (r\<lparr>stdout := stdout r @ header\<rparr>) occs) Tick) =
          stdout (foldl (step loads M) (r\<lparr>stdout := stdout r @ header\<rparr>) occs) @
          ''['' @ join '','' (map json_dumps (map result (map snd
             (modules (foldl (step loads M) (r\<lparr>stdout := stdout r @ header\<rparr>) occs))))) @
          ''],'' @ [newline]
      \<and> stdout (start loads M r (replicate n Tick)) = stdout r @ header @ concat (replicate n
          (''['' @ join '','' (map json_dumps (map result (map snd (modules r)))) @ ''],''
             @ [newline])))"
proof -
  let ?r0 = "r\<lparr>stdout := stdout r @ header\<rparr>"
  have h: "header = ''{'' @ dumps_str ''version'' @ '': '' @ dec_int 1 @ '', '' @
       dumps_str ''click_events'' @ '': true}'' @ [newline] @ ''['' @ [newline]"
    by (simp add: header_def dumps_str_def escape_char_def dec_int_def dquote_def backslash_def
        newline_def)
  have h1: "newline \<notin> set (''{'' @ dumps_str ''version'' @ '': '' @ dec_int 1 @ '', '' @
       dumps_str ''click_events'' @ '': true}'')"
    using dumps_str_no_newline [of "''version''"] dumps_str_no_newline [of "''click_events''"]
    by (simp add: dec_int_def newline_def)
  obtain ls where ls: "stdout (foldl (step loads M) ?r0 occs) = stdout ?r0 @ concat ls"
    "\<forall>l \<in> set ls. \<exists>ds. l = ''['' @ join '','' (map json_dumps ds) @ ''],'' @ [newline]"
    using steps_output [of loads M ?r0 occs] by blast
  have lines: "\<exists>ds. l = ''['' @ join '','' (map json_dumps ds) @ ''],'' @ [newline]
              \<and> newline \<notin> set (butlast l)" if "l \<in> set ls" for l
  proof -
    from that ls(2) obtain ds where
      l: "l = (''['' @ join '','' (map json_dumps ds) @ ''],'') @ [newline]"
      by auto
    have "newline \<notin> set (butlast l)"
      unfolding l butlast_snoc by (rule array_no_newline)
    with l show ?thesis by auto
  qed
  have out: "\<exists>ls. stdout (start loads M r occs) = stdout r @ header @ concat ls
        \<and> (\<forall>l \<in> set ls. \<exists>ds. l = ''['' @ join '','' (map json_dumps ds) @ ''],'' @ [newline]
              \<and> newline \<notin> set (butlast l))"
    by (rule exI [of _ ls]) (use ls(1) lines in \<open>simp add: start_def clean_up_def\<close>)
  have tick: "stdout (step loads M (foldl (step loads M) ?r0 occs) Tick) =
          stdout (foldl (step loads M) ?r0 occs) @
          ''['' @ join '','' (map json_dumps (map result (map snd
             (modules (foldl (step loads M) ?r0 occs))))) @ ''],'' @ [newline]"
    and ticks: "stdout (start loads M r (replicate n Tick)) = stdout r @ header @
          concat (replicate n
          (''['' @ join '','' (map json_dumps (map result (map snd (modules r)))) @ ''],''
             @ [newline]))"
    if w: "map_of (tasks r) WriteResults = Some Pending"
  proof -
    have p: "map_of (tasks ?r0) WriteResults = Some Pending"
      using w by simp
    then have "map_of (tasks (foldl (step loads M) ?r0 occs)) WriteResults = Some Pending"
      by (simp add: steps_writer)
    then show "stdout (step loads M (foldl (step loads M) ?r0 occs) Tick) =
          stdout (foldl (step loads M) ?r0 occs) @
          ''['' @ join '','' (map json_dumps (map result (map snd
             (modules (foldl (step loads M) ?r0 occs))))) @ ''],'' @ [newline]"
      by (simp add: write_results_step_def write_result_stdout)
    show "stdout (start loads M r (replicate n Tick)) = stdout r @ header @
          concat (replicate n
          (''['' @ join '','' (map json_dumps (map result (map snd (modules r)))) @ ''],''
             @ [newline]))"
      by (simp add: start_def clean_up_def ticks_only [OF p])
  qed
  from h h1 out tick ticks show ?thesis by blast
qed

theorem start_output_witness:
  "stdout (start loads_example static_methods disk_runner [Tick]) =
     ''{'' @ [dquote] @ ''version'' @ [dquote] @ '': 1, '' @ [dquote] @ ''click_events'' @
       [dquote] @ '': true}'' @ [newline] @ ''['' @ [newline] @ ''[{'' @ [dquote] @
       ''name'' @ [dquote] @ '': '' @ [dquote] @ ''Disk'' @ [dquote] @ '', '' @ [dquote] @
       ''instance'' @ [dquote] @ '': '' @ [dquote] @ ''/home'' @ [dquote] @ '', '' @
       [dquote] @ ''full_text'' @ [dquote] @ '': '' @ [dquote] @ [dquote] @ '', '' @
       [dquote] @ ''urgent'' @ [dquote] @ '': false, '' @ [dquote] @ ''separator'' @
       [dquote] @ '': true, '' @ [dquote] @ ''markup'' @ [dquote] @ '': '' @ [dquote] @
       ''none'' @ [dquote] @ ''}],'' @ [newline]
   \<and> tasks (start loads_example static_methods disk_runner [Tick]) =
       [(WriteResults, Cancelled), (ClickEvents, Cancelled), (Loop ''Disk__/home'', Cancelled)]"
proof -
  have w: "map_of (tasks disk_runner) WriteResults = Some Pending"
    by (simp add: disk_runner_eq)
  have obj: "json_dumps (result disk_home) =
     ''{'' @ [dquote] @ ''name'' @ [dquote] @ '': '' @ [dquote] @ ''Disk'' @ [dquote] @
       '', '' @ [dquote] @ ''instance'' @ [dquote] @ '': '' @ [dquote] @ ''/home'' @
       [dquote] @ '', '' @ [dquote] @ ''full_text'' @ [dquote] @ '': '' @ [dquote] @
       [dquote] @ '', '' @ [dquote] @ ''urgent'' @ [dquote] @ '': false, '' @ [dquote] @
       ''separator'' @ [dquote] @ '': true, '' @ [dquote] @ ''markup'' @ [dquote] @ '': '' @
       [dquote] @ ''none'' @ [dquote] @ ''}''"
    by (simp add: result_def state_disk_home json_dumps_def dumps_str_def escape_char_def
        dquote_def backslash_def newline_def)
  have one: "replicate 1 Tick = [Tick]" by simp
  from start_output [of loads_example static_methods disk_runner "[]" 1] w
  have "stdout (start loads_example static_methods disk_runner [Tick]) =
      stdout disk_runner @ header @ concat (replicate 1
          (''['' @ join '','' (map json_dumps (map result (map snd (modules disk_runner)))) @ ''],''
             @ [newline]))"
    unfolding one by blast
  then have out: "stdout (start loads_example static_methods disk_runner [Tick]) =
      header @ ''['' @ json_dumps (result disk_home) @ ''],'' @ [newline]"
    by (simp add: disk_runner_eq)
  have ts: "tasks (start loads_example static_methods disk_runner [Tick]) =
       [(WriteResults, Cancelled), (ClickEvents, Cancelled), (Loop ''Disk__/home'', Cancelled)]"
    by (simp add: start_def clean_up_def write_results_step_def disk_runner_eq)
  show ?thesis
    unfolding out obj ts by (simp add: header_def)
qed

end
